theory Spec2Isabelle
  imports Complex_Main "HOL-Library.AList" "HOL-Library.Multiset"
    "HOL-Library.Char_ord" "HOL-Library.List_Lexorder" "HOL-Library.Sublist"
begin

section \<open>Documents: parsed JSON/YAML values\<close>

text \<open>
  A specification document is the tree that \<^verbatim>\<open>json.load\<close> / \<^verbatim>\<open>yaml.safe_load\<close> return.
  A Python \<^verbatim>\<open>dict\<close> keeps insertion order and iteration follows it, so a mapping is an
  association list; a dict has each key once, which is the predicate \<open>wf_dict\<close> below.
  Assignment \<^verbatim>\<open>d[k] = v\<close> is \<open>AList.update\<close>: it replaces the value in place when the key
  exists and appends the pair at the end otherwise, which is what Python does.
\<close>

datatype json =
    JNull
  | JBool bool
  | JInt int
  | JFloat rat
  | JStr string
  | JArr "json list"
  | JObj "(string \<times> json) list"

type_synonym dict = "(string \<times> json) list"

datatype pyerr = AttributeError | TypeError | KeyError | ValueError string

definition get_default :: "dict \<Rightarrow> string \<Rightarrow> json \<Rightarrow> json" where
  "get_default d k dflt = (case map_of d k of Some v \<Rightarrow> v | None \<Rightarrow> dflt)"

definition wf_dict :: "dict \<Rightarrow> bool" where
  "wf_dict d = distinct (map fst d)"

section \<open>core.py: OperationCounter\<close>

definition HTTP_METHODS :: "string list" where
  "HTTP_METHODS = [''get'', ''post'', ''put'', ''delete'', ''patch'', ''options'', ''head'', ''trace'']"

type_synonym operation = "string \<times> string \<times> json"

text \<open>The inner loop of \<^verbatim>\<open>get_operations\<close> for one entry of \<^verbatim>\<open>paths\<close>.\<close>

definition item_operations :: "string \<Rightarrow> json \<Rightarrow> operation list" where
  "item_operations path path_item = (case path_item of
      JObj d \<Rightarrow> List.map_filter
        (\<lambda>method. map_option (\<lambda>operation. (path, method, operation)) (map_of d method))
        HTTP_METHODS
    | _ \<Rightarrow> [])"

text \<open>
  \<^verbatim>\<open>paths = spec.get('paths', {})\<close> followed by \<^verbatim>\<open>paths.items()\<close>: a value of
  \<^verbatim>\<open>paths\<close> that is not a dict has no \<^verbatim>\<open>items\<close> and raises AttributeError.
\<close>

definition get_operations :: "dict \<Rightarrow> pyerr + operation list" where
  "get_operations spec = (case get_default spec ''paths'' (JObj []) of
      JObj paths \<Rightarrow> Inr (concat (map (\<lambda>(path, path_item). item_operations path path_item) paths))
    | _ \<Rightarrow> Inl AttributeError)"

type_synonym counts = "(string \<times> int) list"

definition counts0 :: counts where
  "counts0 = map (\<lambda>method. (method, 0)) HTTP_METHODS @ [(''total'', 0)]"

text \<open>\<^verbatim>\<open>counts[k] += 1\<close>; every key used is in the dict from the start.\<close>

definition incr :: "string \<Rightarrow> counts \<Rightarrow> counts" where
  "incr k c = AList.map_entry k (\<lambda>n. n + 1) c"

definition count_item :: "json \<Rightarrow> counts \<Rightarrow> counts" where
  "count_item path_item c = (case path_item of
      JObj d \<Rightarrow> fold (\<lambda>method c'. if map_of d method \<noteq> None
                                   then incr ''total'' (incr method c') else c')
                 HTTP_METHODS c
    | _ \<Rightarrow> c)"

definition count_operations :: "dict \<Rightarrow> pyerr + counts" where
  "count_operations spec = (case get_default spec ''paths'' (JObj []) of
      JObj paths \<Rightarrow> Inr (fold (\<lambda>(path, path_item). count_item path_item) paths counts0)
    | _ \<Rightarrow> Inl AttributeError)"


section \<open>core.py: ComponentExtractor\<close>

definition COMPONENT_TYPES :: "string list" where
  "COMPONENT_TYPES = [''schemas'', ''responses'', ''parameters'', ''examples'',
     ''requestBodies'', ''headers'', ''securitySchemes'', ''links'', ''callbacks'']"

text \<open>
  \<^verbatim>\<open>json.dumps(v, sort_keys=True)\<close>. The text it writes is determined by, and determines, the
  tree in which every mapping lists its entries in key order; the model returns that tree in
  place of the text, so that two values have the same dump exactly when these trees are equal.
\<close>

primrec json_dumps_sort_keys :: "json \<Rightarrow> json" where
  "json_dumps_sort_keys JNull = JNull"
| "json_dumps_sort_keys (JBool b) = JBool b"
| "json_dumps_sort_keys (JInt i) = JInt i"
| "json_dumps_sort_keys (JFloat r) = JFloat r"
| "json_dumps_sort_keys (JStr s) = JStr s"
| "json_dumps_sort_keys (JArr xs) = JArr (map json_dumps_sort_keys xs)"
| "json_dumps_sort_keys (JObj kvs) = JObj (sort_key fst (map (map_prod id json_dumps_sort_keys) kvs))"

text \<open>
  The loop over \<^verbatim>\<open>source[comp_type].items()\<close>. The target is mutated in place, so it is
  returned also when the loop raises. \<^verbatim>\<open>name in target[comp_type]\<close> followed by the
  subscript read or write raises TypeError on every value that is not a dict.
\<close>

fun merge_items :: "string \<Rightarrow> string \<Rightarrow> (string \<times> json) list \<Rightarrow> dict \<times> counts \<Rightarrow> dict \<times> (pyerr + counts)" where
  "merge_items conflict_strategy comp_type [] (target, conflicts) = (target, Inr conflicts)"
| "merge_items conflict_strategy comp_type ((name, definition) # rest) (target, conflicts) =
    (case map_of target comp_type of
       Some (JObj tc) \<Rightarrow>
         (case map_of tc name of
            Some existing \<Rightarrow>
              if json_dumps_sort_keys existing \<noteq> json_dumps_sort_keys definition then
                if conflict_strategy = ''error'' then
                  (target, Inl (ValueError (''Conflicting '' @ comp_type @ '' '' @ [CHR 0x27] @ name @ [CHR 0x27])))
                else if conflict_strategy = ''keep_last'' then
                  merge_items conflict_strategy comp_type rest
                    (AList.update comp_type (JObj (AList.update name definition tc)) target,
                     incr comp_type conflicts)
                else
                  merge_items conflict_strategy comp_type rest (target, incr comp_type conflicts)
              else merge_items conflict_strategy comp_type rest (target, conflicts)
          | None \<Rightarrow>
              merge_items conflict_strategy comp_type rest
                (AList.update comp_type (JObj (AList.update name definition tc)) target, conflicts))
     | Some _ \<Rightarrow> (target, Inl TypeError)
     | None \<Rightarrow> (target, Inl KeyError))"

text \<open>The loop over \<^verbatim>\<open>COMPONENT_TYPES\<close>; \<^verbatim>\<open>.items()\<close> of a non-dict raises AttributeError.\<close>

fun merge_types :: "string \<Rightarrow> string list \<Rightarrow> dict \<Rightarrow> dict \<times> counts \<Rightarrow> dict \<times> (pyerr + counts)" where
  "merge_types conflict_strategy [] source (target, conflicts) = (target, Inr conflicts)"
| "merge_types conflict_strategy (comp_type # rest) source (target, conflicts) =
    (case map_of source comp_type of
       None \<Rightarrow> merge_types conflict_strategy rest source (target, conflicts)
     | Some sc \<Rightarrow>
         let target1 = (if map_of target comp_type = None
                        then AList.update comp_type (JObj []) target else target)
         in (case sc of
               JObj items \<Rightarrow>
                 (case merge_items conflict_strategy comp_type items (target1, conflicts) of
                    (target2, Inl e) \<Rightarrow> (target2, Inl e)
                  | (target2, Inr conflicts2) \<Rightarrow>
                      merge_types conflict_strategy rest source (target2, conflicts2))
             | _ \<Rightarrow> (target1, Inl AttributeError)))"

definition merge_components :: "dict \<Rightarrow> dict \<Rightarrow> string \<Rightarrow> dict \<times> (pyerr + counts)" where
  "merge_components target source conflict_strategy =
     merge_types conflict_strategy COMPONENT_TYPES source
       (target, map (\<lambda>comp_type. (comp_type, 0)) COMPONENT_TYPES)"

text \<open>
  A component mapping: each component type that is present maps to a mapping from names to
  definitions (a dict, so with each name once).
\<close>

definition component_mapping :: "dict \<Rightarrow> bool" where
  "component_mapping c = list_all (\<lambda>comp_type. case map_of c comp_type of
        None \<Rightarrow> True
      | Some (JObj d) \<Rightarrow> wf_dict d
      | Some _ \<Rightarrow> False) COMPONENT_TYPES"

section \<open>Python operations on parsed values\<close>

text \<open>
  The code is dynamically typed: what a line does depends on the kind of value it meets, and a
  value of the wrong kind raises. Each operation the modules apply to a parsed value is a
  function into \<open>pyerr + 'a\<close>.
\<close>

definition ebind :: "pyerr + 'a \<Rightarrow> ('a \<Rightarrow> pyerr + 'b) \<Rightarrow> pyerr + 'b" where
  "ebind m f = (case m of Inl e \<Rightarrow> Inl e | Inr x \<Rightarrow> f x)"

text \<open>\<^verbatim>\<open>isinstance(v, dict)\<close>.\<close>

definition is_obj :: "json \<Rightarrow> bool" where
  "is_obj v = (case v of JObj d \<Rightarrow> True | _ \<Rightarrow> False)"

text \<open>\<^verbatim>\<open>t in s\<close> for two strings.\<close>

fun is_substring :: "string \<Rightarrow> string \<Rightarrow> bool" where
  "is_substring t [] = (t = [])"
| "is_substring t (c # cs) = (prefix t (c # cs) \<or> is_substring t cs)"

text \<open>\<^verbatim>\<open>s.split(sep)[0]\<close> for a non-empty separator: the part before its first occurrence.\<close>

fun split_first :: "string \<Rightarrow> string \<Rightarrow> string" where
  "split_first sep [] = []"
| "split_first sep (c # cs) = (if prefix sep (c # cs) then [] else c # split_first sep cs)"

text \<open>\<^verbatim>\<open>k in v\<close> for a string \<open>k\<close>: a key of a dict, an element of a list, a substring of a string.\<close>

definition str_in :: "string \<Rightarrow> json \<Rightarrow> pyerr + bool" where
  "str_in k v = (case v of
      JObj d \<Rightarrow> Inr (map_of d k \<noteq> None)
    | JArr xs \<Rightarrow> Inr (JStr k \<in> set xs)
    | JStr s \<Rightarrow> Inr (is_substring k s)
    | _ \<Rightarrow> Inl TypeError)"

text \<open>\<^verbatim>\<open>v[k]\<close>, \<^verbatim>\<open>v[k] = x\<close> and \<^verbatim>\<open>del v[k]\<close> for a string \<open>k\<close>.\<close>

definition py_getitem :: "json \<Rightarrow> string \<Rightarrow> pyerr + json" where
  "py_getitem v k = (case v of
      JObj d \<Rightarrow> (case map_of d k of Some x \<Rightarrow> Inr x | None \<Rightarrow> Inl KeyError)
    | _ \<Rightarrow> Inl TypeError)"

definition py_setitem :: "json \<Rightarrow> string \<Rightarrow> json \<Rightarrow> pyerr + json" where
  "py_setitem v k x = (case v of
      JObj d \<Rightarrow> Inr (JObj (AList.update k x d))
    | _ \<Rightarrow> Inl TypeError)"

definition py_delitem :: "json \<Rightarrow> string \<Rightarrow> pyerr + json" where
  "py_delitem v k = (case v of
      JObj d \<Rightarrow> (if map_of d k = None then Inl KeyError else Inr (JObj (AList.delete k d)))
    | _ \<Rightarrow> Inl TypeError)"

text \<open>\<^verbatim>\<open>v.get(k, dflt)\<close>, \<^verbatim>\<open>v.copy()\<close> and \<^verbatim>\<open>v.items()\<close>: methods that only some kinds have.\<close>

definition py_get :: "json \<Rightarrow> string \<Rightarrow> json \<Rightarrow> pyerr + json" where
  "py_get v k dflt = (case v of JObj d \<Rightarrow> Inr (get_default d k dflt) | _ \<Rightarrow> Inl AttributeError)"

definition py_copy :: "json \<Rightarrow> pyerr + json" where
  "py_copy v = (case v of JObj d \<Rightarrow> Inr v | JArr xs \<Rightarrow> Inr v | _ \<Rightarrow> Inl AttributeError)"

definition py_items :: "json \<Rightarrow> pyerr + dict" where
  "py_items v = (case v of JObj d \<Rightarrow> Inr d | _ \<Rightarrow> Inl AttributeError)"

text \<open>\<^verbatim>\<open>for x in v\<close>: the elements of a list, the keys of a dict, the characters of a string.\<close>

definition py_iter :: "json \<Rightarrow> pyerr + json list" where
  "py_iter v = (case v of
      JArr xs \<Rightarrow> Inr xs
    | JObj d \<Rightarrow> Inr (map (\<lambda>(k, x). JStr k) d)
    | JStr s \<Rightarrow> Inr (map (\<lambda>c. JStr [c]) s)
    | _ \<Rightarrow> Inl TypeError)"

text \<open>\<^verbatim>\<open>v.append(x)\<close>: only a list has it.\<close>

definition py_append :: "json \<Rightarrow> json \<Rightarrow> pyerr + json" where
  "py_append v x = (case v of JArr xs \<Rightarrow> Inr (JArr (xs @ [x])) | _ \<Rightarrow> Inl AttributeError)"

text \<open>Truth value of a parsed value, as \<^verbatim>\<open>if v:\<close> takes it.\<close>

definition py_truthy :: "json \<Rightarrow> bool" where
  "py_truthy v = (case v of
      JNull \<Rightarrow> False
    | JBool b \<Rightarrow> b
    | JInt i \<Rightarrow> i \<noteq> 0
    | JFloat r \<Rightarrow> r \<noteq> 0
    | JStr s \<Rightarrow> s \<noteq> []
    | JArr xs \<Rightarrow> xs \<noteq> []
    | JObj d \<Rightarrow> d \<noteq> [])"

text \<open>
  Members of a \<^verbatim>\<open>set\<close> and keys of a \<^verbatim>\<open>dict\<close> must be hashable (lists and dicts are not) and
  are compared with \<^verbatim>\<open>==\<close>, under which \<^verbatim>\<open>True\<close>, \<^verbatim>\<open>1\<close> and \<^verbatim>\<open>1.0\<close> are one key.
\<close>

definition py_hashable :: "json \<Rightarrow> bool" where
  "py_hashable v = (case v of JArr xs \<Rightarrow> False | JObj d \<Rightarrow> False | _ \<Rightarrow> True)"

definition num_val :: "json \<Rightarrow> rat option" where
  "num_val v = (case v of
      JBool b \<Rightarrow> Some (if b then 1 else 0)
    | JInt i \<Rightarrow> Some (of_int i)
    | JFloat r \<Rightarrow> Some r
    | _ \<Rightarrow> None)"

definition py_eq :: "json \<Rightarrow> json \<Rightarrow> bool" where
  "py_eq a b = (case (num_val a, num_val b) of
      (Some x, Some y) \<Rightarrow> x = y
    | (None, None) \<Rightarrow> a = b
    | _ \<Rightarrow> False)"

definition hashed :: "json \<Rightarrow> pyerr + json" where
  "hashed v = (if py_hashable v then Inr v else Inl TypeError)"

definition py_member :: "json \<Rightarrow> json list \<Rightarrow> bool" where
  "py_member x s = list_ex (py_eq x) s"

section \<open>merger.py: OpenAPIMerger\<close>

text \<open>
  The merger object: the document under construction and the statistics, both mutated by every
  method. A method that raises aborts \<^verbatim>\<open>merge_all\<close>, so a method returns the new state or
  the error.
\<close>

record merger =
  merged_spec :: dict
  files_processed :: int
  paths_merged :: int
  operations_merged :: int
  component_conflicts :: counts
  path_conflicts :: int

definition merger_init :: merger where
  "merger_init = \<lparr>
     merged_spec = [(''openapi'', JStr ''3.1.0''),
                    (''info'', JObj [(''title'', JStr ''Merged API''), (''version'', JStr ''1.0.0'')]),
                    (''paths'', JObj []),
                    (''components'', JObj [])],
     files_processed = 0,
     paths_merged = 0,
     operations_merged = 0,
     component_conflicts = [],
     path_conflicts = 0 \<rparr>"

text \<open>\<^verbatim>\<open>self.merged_spec[k]\<close> and \<^verbatim>\<open>self.merged_spec[k] = v\<close>.\<close>

definition merged_get :: "merger \<Rightarrow> string \<Rightarrow> pyerr + json" where
  "merged_get st k = (case map_of (merged_spec st) k of Some v \<Rightarrow> Inr v | None \<Rightarrow> Inl KeyError)"

definition merged_set :: "string \<Rightarrow> json \<Rightarrow> merger \<Rightarrow> merger" where
  "merged_set k v st = st\<lparr>merged_spec := AList.update k v (merged_spec st)\<rparr>"

subsection \<open>merge\_info\<close>

definition del_if_present :: "string \<Rightarrow> json \<Rightarrow> pyerr + json" where
  "del_if_present key info = ebind (str_in key info) (\<lambda>present.
     if present then py_delitem info key else Inr info)"

text \<open>\<^verbatim>\<open>title.split(' - ')[0]\<close>: only a string has \<^verbatim>\<open>split\<close>.\<close>

definition title_before_suffix :: "json \<Rightarrow> pyerr + json" where
  "title_before_suffix title = (case title of
      JStr s \<Rightarrow> Inr (JStr (split_first '' - '' s))
    | _ \<Rightarrow> Inl AttributeError)"

definition merge_info_first :: "json \<Rightarrow> pyerr + json" where
  "merge_info_first source_info =
     ebind (py_copy source_info) (\<lambda>info0.
     ebind (del_if_present ''x-split-part'' info0) (\<lambda>info1.
     ebind (del_if_present ''x-split-timestamp'' info1) (\<lambda>info2.
     ebind (py_get info2 ''title'' (JStr [])) (\<lambda>title.
     ebind (str_in '' - '' title) (\<lambda>has_suffix.
       if has_suffix
       then ebind (title_before_suffix title) (\<lambda>t. py_setitem info2 ''title'' t)
       else Inr info2)))))"

text \<open>The loop over \<^verbatim>\<open>source_info.items()\<close> of the later files: first-seen extension keys.\<close>

fun merge_extensions :: "(string \<times> json) list \<Rightarrow> json \<Rightarrow> pyerr + json" where
  "merge_extensions [] info = Inr info"
| "merge_extensions ((key, val) # rest) info =
     (if prefix ''x-'' key \<and> key \<notin> set [''x-split-part'', ''x-split-timestamp'']
      then ebind (str_in key info) (\<lambda>present.
             if \<not> present
             then ebind (py_setitem info key val) (merge_extensions rest)
             else merge_extensions rest info)
      else merge_extensions rest info)"

definition merge_info_later :: "json \<Rightarrow> json \<Rightarrow> pyerr + json" where
  "merge_info_later source_info info =
     ebind (ebind (str_in ''description'' source_info) (\<lambda>in_source.
              if in_source
              then ebind (str_in ''description'' info) (\<lambda>in_merged.
                     if \<not> in_merged
                     then ebind (py_getitem source_info ''description'') (py_setitem info ''description'')
                     else Inr info)
              else Inr info)) (\<lambda>info1.
     ebind (py_items source_info) (\<lambda>items. merge_extensions items info1))"

definition merge_info :: "dict \<Rightarrow> merger \<Rightarrow> pyerr + merger" where
  "merge_info spec st = (case map_of spec ''info'' of
      None \<Rightarrow> Inr st
    | Some source_info \<Rightarrow>
        if files_processed st = 0
        then ebind (merge_info_first source_info) (\<lambda>info. Inr (merged_set ''info'' info st))
        else ebind (merged_get st ''info'') (\<lambda>info.
             ebind (merge_info_later source_info info) (\<lambda>info'. Inr (merged_set ''info'' info' st))))"

subsection \<open>merge\_paths\<close>

text \<open>
  The loop over \<^verbatim>\<open>path_item.items()\<close>. \<^verbatim>\<open>self.merged_spec['paths'][path]\<close> is read at every
  round, as the code does. The list of methods written out in the code is \<open>HTTP_METHODS\<close>.
\<close>

fun merge_methods :: "string \<Rightarrow> (string \<times> json) list \<Rightarrow> merger \<Rightarrow> pyerr + merger" where
  "merge_methods path [] st = Inr st"
| "merge_methods path ((method, operation) # rest) st =
     ebind (merged_get st ''paths'') (\<lambda>paths.
     ebind (py_getitem paths path) (\<lambda>item.
     ebind (str_in method item) (\<lambda>present.
     let st1 = (if present then st\<lparr>path_conflicts := path_conflicts st + 1\<rparr> else st) in
     ebind (py_setitem item method operation) (\<lambda>item'.
     ebind (py_setitem paths path item') (\<lambda>paths'.
     let st2 = merged_set ''paths'' paths' st1;
         st3 = (if method \<in> set HTTP_METHODS
                then st2\<lparr>operations_merged := operations_merged st2 + 1\<rparr> else st2)
     in merge_methods path rest st3)))))"

fun merge_path_items :: "(string \<times> json) list \<Rightarrow> merger \<Rightarrow> pyerr + merger" where
  "merge_path_items [] st = Inr st"
| "merge_path_items ((path, path_item) # rest) st =
     (case path_item of
        JObj items \<Rightarrow>
          ebind (merged_get st ''paths'') (\<lambda>paths.
          ebind (str_in path paths) (\<lambda>present.
          ebind (if \<not> present
                 then ebind (py_setitem paths path (JObj [])) (\<lambda>paths'.
                        Inr ((merged_set ''paths'' paths' st)\<lparr>paths_merged := paths_merged st + 1\<rparr>))
                 else Inr st) (\<lambda>st1.
          ebind (merge_methods path items st1) (merge_path_items rest))))
      | _ \<Rightarrow> merge_path_items rest st)"

definition merge_paths :: "dict \<Rightarrow> merger \<Rightarrow> pyerr + merger" where
  "merge_paths spec st = (case map_of spec ''paths'' of
      None \<Rightarrow> Inr st
    | Some paths \<Rightarrow> ebind (py_items paths) (\<lambda>items. merge_path_items items st))"

subsection \<open>merge\_root\_properties\<close>

text \<open>
  Servers: \<^verbatim>\<open>existing_servers\<close> is the set of dumps of the servers already merged; a server
  of the incoming file whose dump is new is appended and its dump added.
\<close>

fun merge_servers :: "json list \<Rightarrow> json \<times> json list \<Rightarrow> pyerr + json" where
  "merge_servers [] (servers, existing_servers) = Inr servers"
| "merge_servers (server # rest) (servers, existing_servers) =
     (let server_json = json_dumps_sort_keys server in
      if server_json \<notin> set existing_servers
      then ebind (py_append servers server) (\<lambda>servers'.
             merge_servers rest (servers', server_json # existing_servers))
      else merge_servers rest (servers, existing_servers))"

text \<open>
  Tags: \<^verbatim>\<open>existing_tags\<close> maps each name to the tag object of that name in the merged list
  (the last one, when a name repeats). The object is the element of the list itself, so it is
  kept as its index, and the write to it is a write at that index. The dict is built before the
  loop and not extended by the appends.
\<close>

fun tag_index :: "json \<Rightarrow> (json \<times> nat) list \<Rightarrow> nat option" where
  "tag_index name [] = None"
| "tag_index name ((k, i) # rest) = (if py_eq name k then Some i else tag_index name rest)"

fun existing_tags_of :: "json list \<Rightarrow> nat \<Rightarrow> (json \<times> nat) list \<Rightarrow> pyerr + (json \<times> nat) list" where
  "existing_tags_of [] i acc = Inr acc"
| "existing_tags_of (tag # rest) i acc =
     ebind (py_getitem tag ''name'') (\<lambda>name.
     ebind (hashed name) (\<lambda>name.
       existing_tags_of rest (Suc i) ((name, i) # acc)))"

fun merge_tags :: "json list \<Rightarrow> (json \<times> nat) list \<Rightarrow> json \<Rightarrow> pyerr + json" where
  "merge_tags [] existing_tags tags = Inr tags"
| "merge_tags (tag # rest) existing_tags tags =
     ebind (py_getitem tag ''name'') (\<lambda>name.
     ebind (hashed name) (\<lambda>name.
       case tag_index name existing_tags of
         None \<Rightarrow> ebind (py_append tags tag) (merge_tags rest existing_tags)
       | Some i \<Rightarrow>
           ebind (str_in ''description'' tag) (\<lambda>has_description.
             if has_description
             then ebind (py_iter tags) (\<lambda>elems.
                  ebind (str_in ''description'' (elems ! i)) (\<lambda>existing_has.
                    if \<not> existing_has
                    then ebind (py_getitem tag ''description'') (\<lambda>description.
                         ebind (py_setitem (elems ! i) ''description'' description) (\<lambda>tag'.
                           merge_tags rest existing_tags (JArr (elems[i := tag']))))
                    else merge_tags rest existing_tags tags))
             else merge_tags rest existing_tags tags)))"

definition merge_root_property :: "string \<Rightarrow> dict \<Rightarrow> merger \<Rightarrow> pyerr + merger" where
  "merge_root_property prop spec st = (case map_of spec prop of
      None \<Rightarrow> Inr st
    | Some incoming \<Rightarrow>
        (case map_of (merged_spec st) prop of
           None \<Rightarrow> ebind (py_copy incoming) (\<lambda>v. Inr (merged_set prop v st))
         | Some current \<Rightarrow>
             if prop = ''servers'' then
               ebind (py_iter current) (\<lambda>merged_servers.
               ebind (py_iter incoming) (\<lambda>servers.
               ebind (merge_servers servers (current, map json_dumps_sort_keys merged_servers))
                 (\<lambda>v. Inr (merged_set prop v st))))
             else if prop = ''tags'' then
               ebind (py_iter current) (\<lambda>merged_tags.
               ebind (existing_tags_of merged_tags 0 []) (\<lambda>existing_tags.
               ebind (py_iter incoming) (\<lambda>tags.
               ebind (merge_tags tags existing_tags current)
                 (\<lambda>v. Inr (merged_set prop v st)))))
             else Inr st))"

fun merge_props :: "string list \<Rightarrow> dict \<Rightarrow> merger \<Rightarrow> pyerr + merger" where
  "merge_props [] spec st = Inr st"
| "merge_props (prop # rest) spec st = ebind (merge_root_property prop spec st) (merge_props rest spec)"

definition merge_root_properties :: "dict \<Rightarrow> merger \<Rightarrow> pyerr + merger" where
  "merge_root_properties spec st =
     merge_props [''servers'', ''security'', ''tags'', ''externalDocs''] spec st"

subsection \<open>merge\_components\<close>

text \<open>
  \<^verbatim>\<open>ComponentExtractor.merge_components\<close> is handed \<^verbatim>\<open>spec['components']\<close> as it is. When
  that is not a dict, \<^verbatim>\<open>comp_type in source\<close> is membership in a list or a substring test on a
  string, and the subscript \<^verbatim>\<open>source[comp_type]\<close> that follows a hit raises TypeError; on any
  other kind the test itself raises TypeError.
\<close>

definition merge_components_of :: "dict \<Rightarrow> json \<Rightarrow> string \<Rightarrow> dict \<times> (pyerr + counts)" where
  "merge_components_of target source conflict_strategy = (case source of
      JObj d \<Rightarrow> merge_components target d conflict_strategy
    | JArr xs \<Rightarrow>
        (if list_ex (\<lambda>comp_type. JStr comp_type \<in> set xs) COMPONENT_TYPES
         then (target, Inl TypeError)
         else (target, Inr (map (\<lambda>comp_type. (comp_type, 0)) COMPONENT_TYPES)))
    | JStr s \<Rightarrow>
        (if list_ex (\<lambda>comp_type. is_substring comp_type s) COMPONENT_TYPES
         then (target, Inl TypeError)
         else (target, Inr (map (\<lambda>comp_type. (comp_type, 0)) COMPONENT_TYPES)))
    | _ \<Rightarrow> (target, Inl TypeError))"

text \<open>The loop over \<^verbatim>\<open>conflicts.items()\<close> that adds the positive counts to the statistics.\<close>

fun track_conflicts :: "(string \<times> int) list \<Rightarrow> counts \<Rightarrow> counts" where
  "track_conflicts [] cc = cc"
| "track_conflicts ((comp_type, n) # rest) cc =
     (if n > 0
      then track_conflicts rest
             (AList.update comp_type ((case map_of cc comp_type of None \<Rightarrow> 0 | Some m \<Rightarrow> m) + n) cc)
      else track_conflicts rest cc)"

definition merger_merge_components :: "dict \<Rightarrow> string \<Rightarrow> merger \<Rightarrow> pyerr + merger" where
  "merger_merge_components spec conflict_strategy st = (case map_of spec ''components'' of
      None \<Rightarrow> Inr st
    | Some source_components \<Rightarrow>
        (let st1 = (if map_of (merged_spec st) ''components'' = None
                    then merged_set ''components'' (JObj []) st else st)
         in ebind (merged_get st1 ''components'') (\<lambda>tc.
            ebind (py_items tc) (\<lambda>target_components.
              case merge_components_of target_components source_components conflict_strategy of
                (target', Inl e) \<Rightarrow> Inl e
              | (target', Inr conflicts) \<Rightarrow>
                  Inr ((merged_set ''components'' (JObj target') st1)
                         \<lparr>component_conflicts := track_conflicts conflicts (component_conflicts st1)\<rparr>)))))"

subsection \<open>clean\_merged\_spec and merge\_all\<close>

definition clean_merged_spec :: "merger \<Rightarrow> pyerr + merger" where
  "clean_merged_spec st = (case map_of (merged_spec st) ''components'' of
      None \<Rightarrow> Inr st
    | Some c \<Rightarrow>
        ebind (py_items c) (\<lambda>components.
          let kept = filter (\<lambda>(comp_type, comps). py_truthy comps) components in
          if kept = []
          then Inr (st\<lparr>merged_spec := AList.delete ''components'' (merged_spec st)\<rparr>)
          else Inr (merged_set ''components'' (JObj kept) st)))"

text \<open>The body of the loop of \<^verbatim>\<open>merge_all\<close> for a file that loaded.\<close>

definition copy_version :: "dict \<Rightarrow> merger \<Rightarrow> merger" where
  "copy_version spec st =
     (if files_processed st = 0 then
        (case map_of spec ''openapi'' of
           Some v \<Rightarrow> merged_set ''openapi'' v st
         | None \<Rightarrow> (case map_of spec ''swagger'' of
                      Some v \<Rightarrow> merged_set ''swagger'' v st
                    | None \<Rightarrow> st))
      else st)"

definition merge_file :: "string \<Rightarrow> dict \<Rightarrow> merger \<Rightarrow> pyerr + merger" where
  "merge_file conflict_strategy spec st =
     ebind (merge_info spec (copy_version spec st)) (\<lambda>st1.
     ebind (merge_root_properties spec st1) (\<lambda>st2.
     ebind (merger_merge_components spec conflict_strategy st2) (\<lambda>st3.
     ebind (merge_paths spec st3) (\<lambda>st4.
       Inr (st4\<lparr>files_processed := files_processed st4 + 1\<rparr>)))))"

text \<open>
  The loop over the candidate files. Each file is given as what \<^verbatim>\<open>SpecLoader.load_spec\<close>
  returns for it: the root mapping, or the exception, which the loop catches and skips.
\<close>

fun merge_files :: "string \<Rightarrow> (pyerr + dict) list \<Rightarrow> merger \<Rightarrow> pyerr + merger" where
  "merge_files conflict_strategy [] st = Inr st"
| "merge_files conflict_strategy (Inl e # rest) st = merge_files conflict_strategy rest st"
| "merge_files conflict_strategy (Inr spec # rest) st =
     ebind (merge_file conflict_strategy spec st) (merge_files conflict_strategy rest)"

text \<open>\<^verbatim>\<open>SpecLoader.save_spec\<close> writes the document as it is, or rejects the format.\<close>

definition save_spec :: "dict \<Rightarrow> string \<Rightarrow> pyerr + dict" where
  "save_spec spec fmt =
     (if fmt = ''json'' then Inr spec
      else if fmt \<in> set [''yaml'', ''yml''] then Inr spec
      else Inl (ValueError (''Unsupported format: '' @ fmt)))"

text \<open>
  \<^verbatim>\<open>merge_all\<close>: the result is the document written to the output path together with the
  statistics returned.
\<close>

definition merge_all :: "(pyerr + dict) list \<Rightarrow> string \<Rightarrow> string \<Rightarrow> pyerr + (dict \<times> merger)" where
  "merge_all spec_files conflict_strategy output_format =
     (if spec_files = [] then Inl (ValueError ''No spec files found to merge!'')
      else ebind (merge_files conflict_strategy spec_files merger_init) (\<lambda>st.
           ebind (clean_merged_spec st) (\<lambda>st'.
           ebind (save_spec (merged_spec st') output_format) (\<lambda>written.
             Inr (written, st')))))"

section \<open>core.py: extract\_components\<close>

fun extract_types :: "string list \<Rightarrow> json \<Rightarrow> dict \<Rightarrow> pyerr + dict" where
  "extract_types [] spec_components components = Inr components"
| "extract_types (comp_type # rest) spec_components components =
     ebind (str_in comp_type spec_components) (\<lambda>present.
       if present
       then ebind (py_getitem spec_components comp_type) (\<lambda>v.
            ebind (py_copy v) (\<lambda>c.
              extract_types rest spec_components (AList.update comp_type c components)))
       else extract_types rest spec_components components)"

definition extract_components :: "dict \<Rightarrow> pyerr + dict" where
  "extract_components spec =
     (let components = map (\<lambda>comp_type. (comp_type, JObj [])) COMPONENT_TYPES in
      case map_of spec ''components'' of
        None \<Rightarrow> Inr components
      | Some spec_components \<Rightarrow> extract_types COMPONENT_TYPES spec_components components)"

section \<open>splitter.py: OpenAPISplitter\<close>

text \<open>
  The splitter object holds the loaded document (\<^verbatim>\<open>self.spec\<close>) and the components extracted from it when it
  was constructed. Two things it reads from outside the document are fields as well: the
  modification time of the source file, stamped into every mini-document, and the text an
  f-string gives for a title that is not a string (a string is inserted as it is).
\<close>

record splitter =
  source_spec :: dict
  common_components :: dict
  st_mtime :: json
  str_of :: "json \<Rightarrow> string"

definition splitter_init :: "dict \<Rightarrow> json \<Rightarrow> (json \<Rightarrow> string) \<Rightarrow> pyerr + splitter" where
  "splitter_init loaded mtime fmt =
     ebind (extract_components loaded) (\<lambda>components.
       Inr \<lparr> source_spec = loaded, common_components = components, st_mtime = mtime, str_of = fmt \<rparr>)"

definition format_value :: "splitter \<Rightarrow> json \<Rightarrow> string" where
  "format_value sp v = (case v of JStr s \<Rightarrow> s | _ \<Rightarrow> str_of sp v)"

subsection \<open>create\_mini\_spec\<close>

text \<open>\<^verbatim>\<open>used_tags.update(operation['tags'])\<close> over the endpoints; the set is kept as a list.\<close>

fun collect_tags :: "operation list \<Rightarrow> json list \<Rightarrow> pyerr + json list" where
  "collect_tags [] used_tags = Inr used_tags"
| "collect_tags ((path, method, operation) # rest) used_tags =
     ebind (str_in ''tags'' operation) (\<lambda>has_tags.
       if has_tags
       then ebind (py_getitem operation ''tags'') (\<lambda>tags.
            ebind (py_iter tags) (\<lambda>elems.
              if list_all py_hashable elems
              then collect_tags rest (used_tags @ elems)
              else Inl TypeError))
       else collect_tags rest used_tags)"

text \<open>\<^verbatim>\<open>[tag for tag in self.spec['tags'] if tag.get('name') in used_tags]\<close>.\<close>

fun filter_tags :: "json list \<Rightarrow> json list \<Rightarrow> pyerr + json list" where
  "filter_tags [] used_tags = Inr []"
| "filter_tags (tag # rest) used_tags =
     ebind (py_get tag ''name'' JNull) (\<lambda>name.
     ebind (hashed name) (\<lambda>name.
     ebind (filter_tags rest used_tags) (\<lambda>kept.
       Inr (if py_member name used_tags then tag # kept else kept))))"

definition relevant_tags :: "splitter \<Rightarrow> operation list \<Rightarrow> dict \<Rightarrow> pyerr + dict" where
  "relevant_tags sp endpoints mini_spec = (case map_of (source_spec sp) ''tags'' of
      None \<Rightarrow> Inr mini_spec
    | Some spec_tags \<Rightarrow>
        ebind (collect_tags endpoints []) (\<lambda>used_tags.
          if used_tags \<noteq> []
          then ebind (py_iter spec_tags) (\<lambda>tags.
               ebind (filter_tags tags used_tags) (\<lambda>kept.
                 Inr (AList.update ''tags'' (JArr kept) mini_spec)))
          else Inr mini_spec))"

text \<open>\<^verbatim>\<open>mini_spec[prop] = self.spec[prop].copy()\<close> when the source has the property.\<close>

definition copy_prop :: "splitter \<Rightarrow> string \<Rightarrow> dict \<Rightarrow> pyerr + dict" where
  "copy_prop sp prop mini_spec = (case map_of (source_spec sp) prop of
      None \<Rightarrow> Inr mini_spec
    | Some v \<Rightarrow> ebind (py_copy v) (\<lambda>c. Inr (AList.update prop c mini_spec)))"

text \<open>
  The loop that fills \<^verbatim>\<open>mini_spec['paths']\<close>, which starts empty: every path item in it is a
  dict this loop created.
\<close>

fun add_endpoints :: "operation list \<Rightarrow> dict \<Rightarrow> dict" where
  "add_endpoints [] paths = paths"
| "add_endpoints ((path, method, operation) # rest) paths =
     (let paths1 = (if map_of paths path = None then AList.update path (JObj []) paths else paths);
          item = (case map_of paths1 path of Some (JObj d) \<Rightarrow> d | _ \<Rightarrow> [])
      in add_endpoints rest (AList.update path (JObj (AList.update method operation item)) paths1))"

definition stamp_info :: "splitter \<Rightarrow> string \<Rightarrow> json \<Rightarrow> pyerr + json" where
  "stamp_info sp name info =
     ebind (py_get info ''title'' (JStr ''API'')) (\<lambda>title.
     ebind (py_setitem info ''title'' (JStr (format_value sp title @ '' - '' @ name))) (\<lambda>info1.
     ebind (py_setitem info1 ''x-split-part'' (JStr name)) (\<lambda>info2.
       py_setitem info2 ''x-split-timestamp'' (st_mtime sp))))"

definition create_mini_spec :: "splitter \<Rightarrow> operation list \<Rightarrow> string \<Rightarrow> bool \<Rightarrow> pyerr + dict" where
  "create_mini_spec sp endpoints name include_components =
     ebind (case map_of (source_spec sp) ''info'' of
              Some info \<Rightarrow> py_copy info
            | None \<Rightarrow> Inr (JObj [(''title'', JStr ''API''), (''version'', JStr ''1.0.0'')])) (\<lambda>info.
     let mini0 = [(''openapi'', get_default (source_spec sp) ''openapi'' (JStr ''3.1.0'')),
                  (''info'', info),
                  (''paths'', JObj [])];
         mini1 = (if include_components \<and> common_components sp \<noteq> []
                  then AList.update ''components''
                         (JObj (filter (\<lambda>(comp_type, components). py_truthy components)
                                  (common_components sp))) mini0
                  else mini0)
     in
     ebind (copy_prop sp ''servers'' mini1) (\<lambda>mini2.
     ebind (copy_prop sp ''security'' mini2) (\<lambda>mini3.
     ebind (relevant_tags sp endpoints mini3) (\<lambda>mini4.
     let mini5 = AList.update ''paths'' (JObj (add_endpoints endpoints [])) mini4 in
     ebind (stamp_info sp name info) (\<lambda>info'.
       Inr (AList.update ''info'' info' mini5))))))"

subsection \<open>Numbers in names, ranges\<close>

text \<open>The decimal text of a natural number, as an f-string writes it.\<close>

function str_nat :: "nat \<Rightarrow> string" where
  "str_nat n = (if n < 10 then [''0123456789'' ! n]
                else str_nat (n div 10) @ [''0123456789'' ! (n mod 10)])"
  by pat_completeness auto
termination
  by (relation "measure id") auto

declare str_nat.simps [simp del]

text \<open>The format \<^verbatim>\<open>03d\<close>: zeros on the left up to three digits.\<close>

definition zfill3 :: "string \<Rightarrow> string" where
  "zfill3 s = replicate (3 - length s) (CHR ''0'') @ s"

text \<open>\<^verbatim>\<open>range(0, n, step)\<close> for a positive step.\<close>

definition range_step :: "nat \<Rightarrow> nat \<Rightarrow> nat list" where
  "range_step n step = map (\<lambda>k. k * step) [0..<(n + step - 1) div step]"

subsection \<open>split\_by\_size\<close>

text \<open>One entry of the manifest, together with the document written under that name.\<close>

record split_file =
  file_name :: string
  file_label :: json
  endpoint_count :: nat
  path_count :: nat
  file_doc :: dict

fun size_chunks :: "splitter \<Rightarrow> operation list \<Rightarrow> nat \<Rightarrow> nat list \<Rightarrow> pyerr + split_file list" where
  "size_chunks sp all_endpoints n [] = Inr []"
| "size_chunks sp all_endpoints n (i # rest) =
     (let chunk = take n (drop i all_endpoints);
          part_num = i div n + 1;
          filename = ''spec_part'' @ zfill3 (str_nat part_num) @ ''.json''
      in ebind (create_mini_spec sp chunk (''Part '' @ str_nat part_num) True) (\<lambda>mini_spec.
         ebind (size_chunks sp all_endpoints n rest) (\<lambda>files.
           Inr (\<lparr> file_name = filename, file_label = JInt (int part_num),
                  endpoint_count = length chunk,
                  path_count = length (remdups (map fst chunk)),
                  file_doc = mini_spec \<rparr> # files))))"

text \<open>
  A step of zero makes \<^verbatim>\<open>range\<close> raise ValueError; a negative step gives an empty range, so
  no file is written.
\<close>

definition split_by_size :: "splitter \<Rightarrow> int \<Rightarrow> pyerr + split_file list" where
  "split_by_size sp operations_per_file =
     ebind (get_operations (source_spec sp)) (\<lambda>all_endpoints.
       if all_endpoints = [] then Inr []
       else if operations_per_file = 0 then Inl (ValueError ''range() arg 3 must not be zero'')
       else if operations_per_file < 0 then Inr []
       else size_chunks sp all_endpoints (nat operations_per_file)
              (range_step (length all_endpoints) (nat operations_per_file)))"

subsection \<open>group\_endpoints\_by\_path\_prefix and split\_by\_path\_prefix\<close>

type_synonym groups = "(string \<times> operation list) list"

definition strip_slashes :: "string \<Rightarrow> string" where
  "strip_slashes s = rev (dropWhile (\<lambda>c. c = CHR ''/'') (rev (dropWhile (\<lambda>c. c = CHR ''/'') s)))"

text \<open>
  \<^verbatim>\<open>parts = path.strip('/').split('/')\<close>, then \<^verbatim>\<open>parts[0]\<close> or \<^verbatim>\<open>'root'\<close> when it is empty,
  then the braces removed.
\<close>

definition path_prefix :: "string \<Rightarrow> string" where
  "path_prefix path =
     (let part0 = takeWhile (\<lambda>c. c \<noteq> CHR ''/'') (strip_slashes path);
          pfx = (if part0 \<noteq> [] then part0 else ''root'')
      in filter (\<lambda>c. c \<noteq> CHR ''}'') (filter (\<lambda>c. c \<noteq> CHR ''{'') pfx))"

text \<open>\<^verbatim>\<open>grouped[prefix].append(e)\<close> on a \<^verbatim>\<open>defaultdict(list)\<close>.\<close>

definition grouped_append :: "string \<Rightarrow> operation \<Rightarrow> groups \<Rightarrow> groups" where
  "grouped_append pfx e grouped =
     AList.update pfx ((case map_of grouped pfx of None \<Rightarrow> [] | Some es \<Rightarrow> es) @ [e]) grouped"

definition group_item :: "string \<Rightarrow> dict \<Rightarrow> groups \<Rightarrow> groups" where
  "group_item path d grouped =
     fold (\<lambda>method g. case map_of d method of
                         Some operation \<Rightarrow>
                           if is_obj operation
                           then grouped_append (path_prefix path) (path, method, operation) g
                           else g
                       | None \<Rightarrow> g)
          HTTP_METHODS grouped"

definition group_paths :: "dict \<Rightarrow> groups" where
  "group_paths paths =
     fold (\<lambda>(path, path_item) g. case path_item of JObj d \<Rightarrow> group_item path d g | _ \<Rightarrow> g) paths []"

text \<open>The loop that cuts a large group: \<^verbatim>\<open>final_groups[chunk_name] = endpoints[i:i + max_per_file]\<close>.\<close>

fun chunk_group :: "string \<Rightarrow> operation list \<Rightarrow> nat \<Rightarrow> nat list \<Rightarrow> groups \<Rightarrow> groups" where
  "chunk_group pfx endpoints n [] final_groups = final_groups"
| "chunk_group pfx endpoints n (i # rest) final_groups =
     chunk_group pfx endpoints n rest
       (AList.update (pfx @ ''_part'' @ str_nat (i div n + 1)) (take n (drop i endpoints)) final_groups)"

fun final_groups_of :: "groups \<Rightarrow> int \<Rightarrow> groups \<Rightarrow> pyerr + groups" where
  "final_groups_of [] max_per_file final_groups = Inr final_groups"
| "final_groups_of ((pfx, endpoints) # rest) max_per_file final_groups =
     (if int (length endpoints) > max_per_file then
        (if max_per_file = 0 then Inl (ValueError ''range() arg 3 must not be zero'')
         else if max_per_file < 0 then final_groups_of rest max_per_file final_groups
         else final_groups_of rest max_per_file
                (chunk_group pfx endpoints (nat max_per_file)
                   (range_step (length endpoints) (nat max_per_file)) final_groups))
      else final_groups_of rest max_per_file (AList.update pfx endpoints final_groups))"

definition group_endpoints_by_path_prefix :: "splitter \<Rightarrow> int \<Rightarrow> pyerr + groups" where
  "group_endpoints_by_path_prefix sp max_per_file =
     ebind (py_items (get_default (source_spec sp) ''paths'' (JObj []))) (\<lambda>paths.
       final_groups_of (group_paths paths) max_per_file [])"

fun prefix_files :: "splitter \<Rightarrow> groups \<Rightarrow> pyerr + split_file list" where
  "prefix_files sp [] = Inr []"
| "prefix_files sp ((pfx, endpoints) # rest) =
     ebind (create_mini_spec sp endpoints pfx True) (\<lambda>mini_spec.
     ebind (prefix_files sp rest) (\<lambda>files.
       Inr (\<lparr> file_name = ''spec_'' @ pfx @ ''.json'', file_label = JStr pfx,
              endpoint_count = length endpoints,
              path_count = length (remdups (map fst endpoints)),
              file_doc = mini_spec \<rparr> # files)))"

definition split_by_path_prefix :: "splitter \<Rightarrow> int \<Rightarrow> pyerr + split_file list" where
  "split_by_path_prefix sp max_per_file =
     ebind (group_endpoints_by_path_prefix sp max_per_file) (\<lambda>grouped.
       if grouped = [] then Inr [] else prefix_files sp grouped)"

subsection \<open>From the split to the merge\<close>

text \<open>
  The output directory after a split: each file name holds the document written to it last.
  The merger takes the names from the manifest, in its order, and loads each; loading a file
  gives back the document that was saved in it.
\<close>

definition written_files :: "split_file list \<Rightarrow> (string \<times> dict) list" where
  "written_files files = fold (\<lambda>f fs. AList.update (file_name f) (file_doc f) fs) files []"

definition load_split_files :: "split_file list \<Rightarrow> (pyerr + dict) list" where
  "load_split_files files =
     List.map_filter (\<lambda>f. map_option Inr (map_of (written_files files) (file_name f))) files"

text \<open>The (path, method) pairs of a document, as \<^verbatim>\<open>get_operations\<close> lists them.\<close>

definition operation_keys :: "dict \<Rightarrow> pyerr + (string \<times> string) list" where
  "operation_keys doc = ebind (get_operations doc) (\<lambda>ops. Inr (map (\<lambda>(path, method, operation). (path, method)) ops))"

text \<open>
  Split a document, merge the files the split wrote, and list the (path, method) pairs of the
  merged document.
\<close>

definition round_trip_size :: "dict \<Rightarrow> json \<Rightarrow> (json \<Rightarrow> string) \<Rightarrow> int \<Rightarrow> string \<Rightarrow> pyerr + (string \<times> string) list" where
  "round_trip_size doc mtime fmt operations_per_file conflict_strategy =
     ebind (splitter_init doc mtime fmt) (\<lambda>sp.
     ebind (split_by_size sp operations_per_file) (\<lambda>files.
     ebind (merge_all (load_split_files files) conflict_strategy ''json'') (\<lambda>(written, st).
       operation_keys written)))"

definition round_trip_path_prefix :: "dict \<Rightarrow> json \<Rightarrow> (json \<Rightarrow> string) \<Rightarrow> int \<Rightarrow> string \<Rightarrow> pyerr + (string \<times> string) list" where
  "round_trip_path_prefix doc mtime fmt max_per_file conflict_strategy =
     ebind (splitter_init doc mtime fmt) (\<lambda>sp.
     ebind (split_by_path_prefix sp max_per_file) (\<lambda>files.
     ebind (merge_all (load_split_files files) conflict_strategy ''json'') (\<lambda>(written, st).
       operation_keys written)))"

section \<open>Operation index: enumeration order and counts\<close>

definition n_method :: "operation list \<Rightarrow> string \<Rightarrow> int" where
  "n_method ops m = int (length (filter (\<lambda>t. fst (snd t) = m) ops))"

lemma map_fst_incr: "map fst (incr k c) = map fst c"
  unfolding incr_def by (induction c) auto

lemma map_of_incr: "map_of (incr k c) k' = (if k' = k then map_option (\<lambda>n. n + 1) (map_of c k) else map_of c k')"
  unfolding incr_def by (simp add: map_of_map_entry split: option.splits)

definition step :: "dict \<Rightarrow> string \<Rightarrow> counts \<Rightarrow> counts" where
  "step d = (\<lambda>method c'. if map_of d method \<noteq> None then incr ''total'' (incr method c') else c')"

definition ops_of :: "string \<Rightarrow> dict \<Rightarrow> string list \<Rightarrow> operation list" where
  "ops_of path d ms = List.map_filter (\<lambda>method. map_option (\<lambda>operation. (path, method, operation)) (map_of d method)) ms"

lemma ops_of_Cons: "ops_of p d (m # ms) = (case map_of d m of None \<Rightarrow> ops_of p d ms | Some v \<Rightarrow> (p, m, v) # ops_of p d ms)"
  by (simp add: ops_of_def map_filter_simps split: option.splits)

lemma fold_step_keys: "map fst (fold (step d) ms c) = map fst c"
  by (induction ms arbitrary: c) (auto simp: step_def map_fst_incr)

lemma fold_step_val:
  "''total'' \<notin> set ms \<Longrightarrow> map_of (fold (step d) ms c) k =
     map_option (\<lambda>n. n + (if k = ''total'' then int (length (ops_of p d ms)) else n_method (ops_of p d ms) k)) (map_of c k)"
proof (induction ms arbitrary: c)
  case Nil
  then show ?case by (simp add: ops_of_def map_filter_simps n_method_def option.map_ident)
next
  case (Cons m ms)
  then show ?case
    by (cases "map_of c k") (auto simp: step_def ops_of_Cons map_of_incr n_method_def split: option.splits)
qed


definition all_ops :: "dict \<Rightarrow> operation list" where
  "all_ops paths = concat (map (\<lambda>(path, path_item). item_operations path path_item) paths)"

lemma item_operations_alt: "item_operations p it = (case it of JObj d \<Rightarrow> ops_of p d HTTP_METHODS | _ \<Rightarrow> [])"
  by (cases it) (simp_all add: item_operations_def ops_of_def)

lemma count_item_alt: "count_item it c = (case it of JObj d \<Rightarrow> fold (step d) HTTP_METHODS c | _ \<Rightarrow> c)"
  by (cases it) (simp_all add: count_item_def step_def)

lemma total_notin: "''total'' \<notin> set HTTP_METHODS"
  by (simp add: HTTP_METHODS_def)

lemma n_method_append: "n_method (xs @ ys) k = n_method xs k + n_method ys k"
  by (simp add: n_method_def)

lemma count_item_val:
  "map_of (count_item it c) k =
     map_option (\<lambda>n. n + (if k = ''total'' then int (length (item_operations p it)) else n_method (item_operations p it) k)) (map_of c k)"
  by (cases it) (simp_all add: count_item_alt item_operations_alt fold_step_val[OF total_notin, where p=p] n_method_def option.map_ident)

lemma count_item_keys: "map fst (count_item it c) = map fst c"
  by (cases it) (simp_all add: count_item_alt fold_step_keys)

lemma fold_count_keys: "map fst (fold (\<lambda>(path, path_item). count_item path_item) paths c) = map fst c"
  by (induction paths arbitrary: c) (auto simp: count_item_keys)

lemma fold_count_val:
  "map_of (fold (\<lambda>(path, path_item). count_item path_item) paths c) k =
     map_option (\<lambda>n. n + (if k = ''total'' then int (length (all_ops paths)) else n_method (all_ops paths) k)) (map_of c k)"
proof (induction paths arbitrary: c)
  case Nil
  then show ?case by (simp add: all_ops_def n_method_def option.map_ident)
next
  case (Cons a paths)
  obtain p it where a: "a = (p, it)" by (cases a)
  show ?case
    by (cases "map_of c k")
       (simp_all add: a Cons.IH count_item_val[where p=p] all_ops_def n_method_append)
qed

lemma alist_eqI:
  "map fst xs = map fst ys \<Longrightarrow> distinct (map fst xs) \<Longrightarrow> map_of xs = map_of ys \<Longrightarrow> xs = ys"
proof (induction xs arbitrary: ys)
  case Nil then show ?case by simp
next
  case (Cons x xs)
  then obtain y ys' where ys: "ys = y # ys'" by (cases ys) auto
  from Cons.prems ys have k: "fst x = fst y" "map fst xs = map fst ys'" by auto
  from Cons.prems(3) have "map_of (x # xs) (fst x) = map_of ys (fst x)" by (rule fun_cong)
  with ys k have v: "snd x = snd y" by (cases x; cases y) auto
  have "map_of xs = map_of ys'"
  proof
    fix k'
    show "map_of xs k' = map_of ys' k'"
    proof (cases "k' = fst x")
      case True
      with Cons.prems(2) k show ?thesis
        by (metis distinct.simps(2) list.simps(9) map_of_eq_None_iff set_map)
    next
      case False
      from Cons.prems(3) have "map_of (x # xs) k' = map_of ys k'" by (rule fun_cong)
      with False ys k show ?thesis
        by (cases x; cases y) (auto split: if_splits)
    qed
  qed
  with Cons.IH[of ys'] k Cons.prems(2) have "xs = ys'" by simp
  with k v ys show ?case by (cases x; cases y) auto
qed

lemma ops_of_method_in: "t \<in> set (ops_of p d ms) \<Longrightarrow> fst (snd t) \<in> set ms"
proof (induction ms)
  case Nil
  then show ?case by (simp add: ops_of_def map_filter_simps)
next
  case (Cons m ms)
  then show ?case by (auto simp: ops_of_Cons split: option.splits)
qed

lemma all_ops_method_in: "t \<in> set (all_ops paths) \<Longrightarrow> fst (snd t) \<in> set HTTP_METHODS"
  by (auto simp: all_ops_def item_operations_alt split: json.splits dest: ops_of_method_in)

lemma sum_indicator0: "m \<notin> set ms \<Longrightarrow> (\<Sum>k\<leftarrow>ms. if m = k then 1 else 0) = (0::int)"
  by (induction ms) auto

lemma sum_indicator: "distinct ms \<Longrightarrow> m \<in> set ms \<Longrightarrow> (\<Sum>k\<leftarrow>ms. if m = k then 1 else 0) = (1::int)"
  by (induction ms) (auto simp: sum_indicator0)

lemma sum_n_method:
  "distinct ms \<Longrightarrow> \<forall>t\<in>set ops. fst (snd t) \<in> set ms \<Longrightarrow> (\<Sum>m\<leftarrow>ms. n_method ops m) = int (length ops)"
proof (induction ops)
  case Nil then show ?case by (simp add: n_method_def sum_list_0)
next
  case (Cons t ops)
  have "(\<Sum>m\<leftarrow>ms. n_method (t # ops) m) = (\<Sum>m\<leftarrow>ms. (if fst (snd t) = m then 1 else 0) + n_method ops m)"
    by (rule arg_cong[where f=sum_list]) (simp add: n_method_def)
  also have "\<dots> = (\<Sum>m\<leftarrow>ms. if fst (snd t) = m then 1 else 0) + (\<Sum>m\<leftarrow>ms. n_method ops m)"
    by (simp add: sum_list_addf)
  finally show ?case using Cons sum_indicator[of ms "fst (snd t)"] by simp
qed

definition spec_listOperations :: "dict \<Rightarrow> operation list" where
  "spec_listOperations paths = List.map_filter
     (\<lambda>((path, path_item), method). case path_item of
          JObj d \<Rightarrow> map_option (\<lambda>operation. (path, method, operation)) (map_of d method)
        | _ \<Rightarrow> None)
     (List.product paths HTTP_METHODS)"

lemma map_filter_append: "List.map_filter f (xs @ ys) = List.map_filter f xs @ List.map_filter f ys"
  by (simp add: List.map_filter_def)

lemma map_filter_map: "List.map_filter f (map g xs) = List.map_filter (f \<circ> g) xs"
  by (simp add: List.map_filter_def filter_map comp_def)

lemma map_filter_None: "List.map_filter (\<lambda>x. None) xs = []"
  by (simp add: List.map_filter_def)

lemma all_ops_eq_spec: "all_ops paths = spec_listOperations paths"
proof (induction paths)
  case Nil
  then show ?case by (simp add: all_ops_def spec_listOperations_def List.map_filter_def)
next
  case (Cons a paths)
  obtain p it where a: "a = (p, it)" by (cases a)
  have "List.map_filter (\<lambda>((path, path_item), method). case path_item of
          JObj d \<Rightarrow> map_option (\<lambda>operation. (path, method, operation)) (map_of d method)
        | _ \<Rightarrow> None) (map (Pair (p, it)) HTTP_METHODS) = item_operations p it"
    by (cases it) (simp_all add: map_filter_map comp_def item_operations_def map_filter_None)
  with Cons show ?case
    by (simp add: a all_ops_def spec_listOperations_def map_filter_append)
qed

text \<open>
  Claim C8. \<^verbatim>\<open>get_operations\<close> lists the (path, method, operation) triples by walking the
  entries of \<^verbatim>\<open>paths\<close> in document order and, inside each path item, the eight HTTP methods
  in the fixed order of \<open>HTTP_METHODS\<close> (not the order in which the path item holds them);
  a path item that is not a mapping contributes nothing and raises nothing.
\<close>

theorem get_operations_order:
  "get_operations spec = (case get_default spec ''paths'' (JObj []) of
      JObj paths \<Rightarrow> Inr (spec_listOperations paths)
    | _ \<Rightarrow> Inl AttributeError)"
  by (simp add: get_operations_def all_ops_eq_spec[symmetric] all_ops_def split: json.splits)

definition ex_spec :: dict where
  "ex_spec = [(''openapi'', JStr ''3.0.0''),
     (''paths'', JObj [
        (''/b'', JObj [(''post'', JObj [(''x'', JInt 1)]), (''parameters'', JArr []), (''get'', JObj [])]),
        (''/skipped'', JStr ''not a mapping''),
        (''/a'', JObj [(''trace'', JObj []), (''put'', JNull)])])]"

theorem get_operations_order_witness:
  "get_operations ex_spec = Inr [(''/b'', ''get'', JObj []), (''/b'', ''post'', JObj [(''x'', JInt 1)]),
      (''/a'', ''put'', JNull), (''/a'', ''trace'', JObj [])]"
  using get_operations_order[of ex_spec]
  by (simp add: ex_spec_def get_default_def spec_listOperations_def HTTP_METHODS_def List.map_filter_def)

text \<open>
  Claim C9. For every spec mapping, the \<^verbatim>\<open>total\<close> of \<^verbatim>\<open>count_operations\<close> is the sum of its
  per-method counts and the length of the list \<^verbatim>\<open>get_operations\<close> returns; each per-method
  count is the number of listed triples with that method, and the two functions fail on the same
  inputs with the same error.
\<close>

theorem count_operations_total:
  "case (count_operations spec, get_operations spec) of
     (Inr c, Inr ops) \<Rightarrow>
        c = map (\<lambda>m. (m, n_method ops m)) HTTP_METHODS @ [(''total'', int (length ops))]
        \<and> sum_list (map (n_method ops) HTTP_METHODS) = int (length ops)
   | (Inl e, Inl e') \<Rightarrow> e = e'
   | _ \<Rightarrow> False"
proof (cases "get_default spec ''paths'' (JObj [])")
  case (JObj paths)
  let ?c = "fold (\<lambda>(path, path_item). count_item path_item) paths counts0"
  let ?r = "map (\<lambda>m. (m, n_method (all_ops paths) m)) HTTP_METHODS @ [(''total'', int (length (all_ops paths)))]"
  have keys: "map fst ?c = map fst ?r"
    by (simp add: fold_count_keys counts0_def comp_def)
  have dist: "distinct (map fst ?c)"
    by (simp add: fold_count_keys counts0_def comp_def HTTP_METHODS_def)
  have vals: "map_of ?c = map_of ?r"
  proof
    fix k
    show "map_of ?c k = map_of ?r k"
      by (simp add: fold_count_val counts0_def map_of_map_restrict restrict_map_def total_notin
            map_of_map_keys HTTP_METHODS_def)
  qed
  have eq: "?c = ?r" using keys dist vals by (rule alist_eqI)
  have "sum_list (map (n_method (all_ops paths)) HTTP_METHODS) = int (length (all_ops paths))"
    by (rule sum_n_method) (auto simp: HTTP_METHODS_def dest: all_ops_method_in)
  with eq JObj show ?thesis
    by (simp add: count_operations_def get_operations_def all_ops_def)
qed (simp_all add: count_operations_def get_operations_def)

theorem count_operations_total_witness:
  "count_operations ex_spec = Inr [(''get'', 1), (''post'', 1), (''put'', 1), (''delete'', 0), (''patch'', 0),
       (''options'', 0), (''head'', 0), (''trace'', 1), (''total'', 4)]
   \<and> map_sum id length (get_operations ex_spec) = Inr 4"
  using count_operations_total[of ex_spec]
  by (simp add: ex_spec_def get_operations_def get_default_def item_operations_def HTTP_METHODS_def
        List.map_filter_def n_method_def split: sum.splits)

section \<open>Component merge: conflict policy and idempotence\<close>

lemma merge_items_same:
  "map_of target comp_type = Some (JObj tc) \<Longrightarrow> \<forall>(n, d)\<in>set items. map_of tc n = Some d \<Longrightarrow>
   merge_items strategy comp_type items (target, c) = (target, Inr c)"
  by (induction items) auto

lemma merge_types_same:
  "list_all (\<lambda>comp_type. case map_of c comp_type of None \<Rightarrow> True | Some (JObj d) \<Rightarrow> wf_dict d | Some _ \<Rightarrow> False) ts \<Longrightarrow>
   merge_types strategy ts c (c, n) = (c, Inr n)"
proof (induction ts)
  case Nil
  then show ?case by simp
next
  case (Cons t ts)
  show ?case
  proof (cases "map_of c t")
    case None
    with Cons show ?thesis by simp
  next
    case (Some sc)
    with Cons.prems obtain d where sc: "sc = JObj d" and wf: "wf_dict d"
      by (cases sc) auto
    from wf have "\<forall>(n, v)\<in>set d. map_of d n = Some v"
      by (auto simp: wf_dict_def)
    with Some sc have "merge_items strategy t d (c, n) = (c, Inr n)"
      by (intro merge_items_same) auto
    with Cons Some sc show ?thesis by simp
  qed
qed

text \<open>
  Claim C7. Merging a component mapping into itself, under any conflict strategy, raises
  nothing, returns a conflict count of zero for every component type and leaves the mapping as
  it was. (In Python the two arguments are then one object; the run never writes to it, so the
  mutation of the target cannot disturb the iteration over the source.)
\<close>

theorem merge_components_idempotent:
  "component_mapping c \<Longrightarrow>
   merge_components c c conflict_strategy = (c, Inr (map (\<lambda>comp_type. (comp_type, 0)) COMPONENT_TYPES))"
  unfolding merge_components_def component_mapping_def by (rule merge_types_same)

definition ex_components :: dict where
  "ex_components = [(''schemas'', JObj [(''Pet'', JObj [(''type'', JStr ''object'')]),
                                        (''Id'', JObj [(''type'', JStr ''integer'')])]),
                    (''responses'', JObj [(''NotFound'', JObj [(''description'', JStr ''missing'')])])]"

theorem merge_components_idempotent_witness:
  "component_mapping ex_components \<and>
   merge_components ex_components ex_components ''error'' =
     (ex_components, Inr [(''schemas'', 0), (''responses'', 0), (''parameters'', 0), (''examples'', 0),
        (''requestBodies'', 0), (''headers'', 0), (''securitySchemes'', 0), (''links'', 0), (''callbacks'', 0)])"
proof -
  have h: "component_mapping ex_components"
    by (simp add: component_mapping_def ex_components_def COMPONENT_TYPES_def wf_dict_def)
  show ?thesis
    using h merge_components_idempotent[OF h, of "''error''"] by (simp add: COMPONENT_TYPES_def)
qed

text \<open>
  Claim C2. With target \<open>{schemas: {a: x}}\<close> and source \<open>{schemas: {a: y}}\<close>, where the
  sorted-key dumps of \<open>x\<close> and \<open>y\<close> differ: under \<^verbatim>\<open>keep_first\<close> the target keeps \<open>x\<close> and the
  schemas conflict count is 1; under \<^verbatim>\<open>keep_last\<close> the target ends with \<open>y\<close> and the count is 1;
  under \<^verbatim>\<open>error\<close> the call raises (a ValueError naming the type and the name) and the entry in
  the target is still \<open>x\<close>.
\<close>

theorem merge_components_conflict_policy:
  "json_dumps_sort_keys x \<noteq> json_dumps_sort_keys y \<Longrightarrow>
   merge_components [(''schemas'', JObj [(a, x)])] [(''schemas'', JObj [(a, y)])] ''keep_first''
      = ([(''schemas'', JObj [(a, x)])],
         Inr ((''schemas'', 1) # map (\<lambda>comp_type. (comp_type, 0)) (tl COMPONENT_TYPES)))
   \<and> merge_components [(''schemas'', JObj [(a, x)])] [(''schemas'', JObj [(a, y)])] ''keep_last''
      = ([(''schemas'', JObj [(a, y)])],
         Inr ((''schemas'', 1) # map (\<lambda>comp_type. (comp_type, 0)) (tl COMPONENT_TYPES)))
   \<and> merge_components [(''schemas'', JObj [(a, x)])] [(''schemas'', JObj [(a, y)])] ''error''
      = ([(''schemas'', JObj [(a, x)])],
         Inl (ValueError (''Conflicting schemas '' @ [CHR 0x27] @ a @ [CHR 0x27])))"
  by (simp add: merge_components_def COMPONENT_TYPES_def incr_def)

theorem merge_components_conflict_policy_witness:
  "json_dumps_sort_keys (JObj [(''type'', JStr ''string'')]) \<noteq> json_dumps_sort_keys (JObj [(''type'', JStr ''integer'')])
   \<and> fst (merge_components [(''schemas'', JObj [(''A'', JObj [(''type'', JStr ''string'')])])]
                           [(''schemas'', JObj [(''A'', JObj [(''type'', JStr ''integer'')])])] ''keep_last'')
      = [(''schemas'', JObj [(''A'', JObj [(''type'', JStr ''integer'')])])]
   \<and> snd (merge_components [(''schemas'', JObj [(''A'', JObj [(''type'', JStr ''string'')])])]
                           [(''schemas'', JObj [(''A'', JObj [(''type'', JStr ''integer'')])])] ''error'')
      = Inl (ValueError (''Conflicting schemas '' @ [CHR 0x27] @ ''A'' @ [CHR 0x27]))"
proof -
  have h: "json_dumps_sort_keys (JObj [(''type'', JStr ''string'')]) \<noteq> json_dumps_sort_keys (JObj [(''type'', JStr ''integer'')])"
    by simp
  show ?thesis
    using h merge_components_conflict_policy[OF h, of "''A''"] by simp
qed

section \<open>merge\_all: the keys of the merged document\<close>

definition core_keys :: "merger \<Rightarrow> bool" where
  "core_keys st = list_all (\<lambda>k. map_of (merged_spec st) k \<noteq> None) [''openapi'', ''info'', ''paths'']"

lemma ebind_Inr: "ebind m f = Inr y \<Longrightarrow> \<exists>x. m = Inr x \<and> f x = Inr y"
  by (cases m) (simp_all add: ebind_def)

lemma map_of_update_neq_None: "map_of d k \<noteq> None \<Longrightarrow> map_of (AList.update k' v d) k \<noteq> None"
  by (simp add: update_conv')

lemma core_keys_merged_set: "core_keys st \<Longrightarrow> core_keys (merged_set k v st)"
  by (simp add: core_keys_def merged_set_def update_conv')

lemma core_keys_upd [simp]:
  "core_keys (st\<lparr>path_conflicts := a\<rparr>) = core_keys st"
  "core_keys (st\<lparr>operations_merged := b\<rparr>) = core_keys st"
  "core_keys (st\<lparr>paths_merged := c\<rparr>) = core_keys st"
  "core_keys (st\<lparr>files_processed := d\<rparr>) = core_keys st"
  "core_keys (st\<lparr>component_conflicts := e\<rparr>) = core_keys st"
  by (simp_all add: core_keys_def)

lemma core_keys_merge_info: "core_keys st \<Longrightarrow> merge_info spec st = Inr st' \<Longrightarrow> core_keys st'"
  by (auto simp: merge_info_def core_keys_merged_set split: option.splits if_splits dest!: ebind_Inr)

lemma core_keys_copy_version: "core_keys st \<Longrightarrow> core_keys (copy_version spec st)"
  by (auto simp: copy_version_def core_keys_merged_set split: option.splits)

lemma core_keys_root_property:
  "core_keys st \<Longrightarrow> merge_root_property prop spec st = Inr st' \<Longrightarrow> core_keys st'"
  by (auto simp: merge_root_property_def core_keys_merged_set split: option.splits if_splits dest!: ebind_Inr)

lemma core_keys_props:
  "core_keys st \<Longrightarrow> merge_props props spec st = Inr st' \<Longrightarrow> core_keys st'"
  by (induction props arbitrary: st) (auto dest!: ebind_Inr dest: core_keys_root_property)

lemma core_keys_components:
  "core_keys st \<Longrightarrow> merger_merge_components spec s st = Inr st' \<Longrightarrow> core_keys st'"
  by (auto simp: merger_merge_components_def Let_def core_keys_merged_set
        split: option.splits if_splits prod.splits sum.splits dest!: ebind_Inr)

lemma core_keys_methods:
  "core_keys st \<Longrightarrow> merge_methods path items st = Inr st' \<Longrightarrow> core_keys st'"
proof (induction items arbitrary: st)
  case Nil
  then show ?case by simp
next
  case (Cons a items)
  obtain m op where a: "a = (m, op)" by (cases a)
  from Cons.prems(2) show ?case
    unfolding a merge_methods.simps Let_def
    by (auto dest!: ebind_Inr intro!: Cons.IH[rotated] core_keys_merged_set Cons.prems(1) split: if_splits)
qed

lemma core_keys_path_items:
  "core_keys st \<Longrightarrow> merge_path_items items st = Inr st' \<Longrightarrow> core_keys st'"
proof (induction items arbitrary: st)
  case Nil
  then show ?case by simp
next
  case (Cons a items)
  obtain p it where a: "a = (p, it)" by (cases a)
  show ?case
  proof (cases it)
    case (JObj d)
    from Cons.prems(2) obtain st1 st2 paths present where
      s0: "(if \<not> present
                 then ebind (py_setitem paths p (JObj [])) (\<lambda>paths'.
                        Inr ((merged_set ''paths'' paths' st)\<lparr>paths_merged := paths_merged st + 1\<rparr>))
                 else Inr st) = Inr st1"
      and s2: "merge_methods p d st1 = Inr st2" and s3: "merge_path_items items st2 = Inr st'"
      unfolding a JObj merge_path_items.simps json.case
      by (blast dest!: ebind_Inr)
    from s0 Cons.prems(1) have s1: "core_keys st1"
      by (auto dest!: ebind_Inr split: if_splits simp: core_keys_merged_set)
    from core_keys_methods[OF s1 s2] s3 show ?thesis by (rule Cons.IH)
  qed (use Cons a in auto)
qed

lemma core_keys_paths:
  "core_keys st \<Longrightarrow> merge_paths spec st = Inr st' \<Longrightarrow> core_keys st'"
  by (auto simp: merge_paths_def split: option.splits dest!: ebind_Inr dest: core_keys_path_items)

lemma core_keys_file:
  "core_keys st \<Longrightarrow> merge_file s spec st = Inr st' \<Longrightarrow> core_keys st'"
proof -
  assume ck: "core_keys st" and mf: "merge_file s spec st = Inr st'"
  from mf obtain st1 st2 st3 st4 where
    a: "merge_info spec (copy_version spec st) = Inr st1"
    and b: "merge_props [''servers'', ''security'', ''tags'', ''externalDocs''] spec st1 = Inr st2"
    and c: "merger_merge_components spec s st2 = Inr st3"
    and d: "merge_paths spec st3 = Inr st4"
    and e: "st' = st4\<lparr>files_processed := files_processed st4 + 1\<rparr>"
    unfolding merge_file_def merge_root_properties_def
    by (blast dest!: ebind_Inr)
  from ck have "core_keys (copy_version spec st)" by (rule core_keys_copy_version)
  then have "core_keys st1" using a by (rule core_keys_merge_info)
  then have "core_keys st2" using b by (rule core_keys_props)
  then have "core_keys st3" using c by (rule core_keys_components)
  then have "core_keys st4" using d by (rule core_keys_paths)
  with e show ?thesis by simp
qed

lemma core_keys_files:
  "core_keys st \<Longrightarrow> merge_files s files st = Inr st' \<Longrightarrow> core_keys st'"
proof (induction files arbitrary: st)
  case Nil
  then show ?case by simp
next
  case (Cons f files)
  then show ?case
    by (cases f) (auto dest!: ebind_Inr dest: core_keys_file)
qed

lemma core_keys_clean:
  "core_keys st \<Longrightarrow> clean_merged_spec st = Inr st' \<Longrightarrow> core_keys st'"
  by (auto simp: clean_merged_spec_def Let_def core_keys_def merged_set_def delete_conv' update_conv'
        split: option.splits if_splits dest!: ebind_Inr)

lemma merge_files_all_failed: "list_all isl files \<Longrightarrow> merge_files s files st = Inr st"
  by (induction files) (auto simp: isl_def)

definition skeleton :: dict where
  "skeleton = [(''openapi'', JStr ''3.1.0''),
               (''info'', JObj [(''title'', JStr ''Merged API''), (''version'', JStr ''1.0.0'')]),
               (''paths'', JObj [])]"

lemma core_keys_init: "core_keys merger_init"
  by (simp add: core_keys_def merger_init_def)

lemma clean_init: "clean_merged_spec merger_init = Inr (merger_init\<lparr>merged_spec := skeleton\<rparr>)"
  by (simp add: clean_merged_spec_def merger_init_def ebind_def py_items_def skeleton_def)

text \<open>
  Claim C10. Whenever \<^verbatim>\<open>merge_all\<close> returns, the document it has written has the keys
  \<^verbatim>\<open>openapi\<close>, \<^verbatim>\<open>info\<close> and \<^verbatim>\<open>paths\<close>. When there is at least one candidate file, every
  file fails to load and the output format is one \<^verbatim>\<open>save_spec\<close> accepts, it returns without
  raising, the document written is the initial skeleton without its empty \<^verbatim>\<open>components\<close>, and
  the statistics have \<^verbatim>\<open>files_processed = 0\<close>.
\<close>

theorem merge_all_core_keys:
  "(\<forall>written st. merge_all spec_files conflict_strategy output_format = Inr (written, st)
       \<longrightarrow> list_all (\<lambda>k. map_of written k \<noteq> None) [''openapi'', ''info'', ''paths''])
   \<and> (spec_files \<noteq> [] \<and> list_all isl spec_files \<and> output_format \<in> set [''json'', ''yaml'', ''yml'']
       \<longrightarrow> (\<exists>st. merge_all spec_files conflict_strategy output_format = Inr (skeleton, st)
              \<and> files_processed st = 0 \<and> paths_merged st = 0 \<and> operations_merged st = 0
              \<and> path_conflicts st = 0 \<and> component_conflicts st = []))"
proof (intro conjI allI impI)
  fix written st
  assume m: "merge_all spec_files conflict_strategy output_format = Inr (written, st)"
  then obtain st1 where
    a: "merge_files conflict_strategy spec_files merger_init = Inr st1"
    and b: "clean_merged_spec st1 = Inr st"
    and c: "save_spec (merged_spec st) output_format = Inr written"
    unfolding merge_all_def by (auto split: if_splits dest!: ebind_Inr)
  from core_keys_init a have "core_keys st1" by (rule core_keys_files)
  then have "core_keys st" using b by (rule core_keys_clean)
  moreover from c have "written = merged_spec st"
    by (auto simp: save_spec_def split: if_splits)
  ultimately show "list_all (\<lambda>k. map_of written k \<noteq> None) [''openapi'', ''info'', ''paths'']"
    by (simp add: core_keys_def)
next
  assume h: "spec_files \<noteq> [] \<and> list_all isl spec_files \<and> output_format \<in> set [''json'', ''yaml'', ''yml'']"
  then have "merge_files conflict_strategy spec_files merger_init = Inr merger_init"
    by (simp add: merge_files_all_failed)
  with h have "merge_all spec_files conflict_strategy output_format
      = Inr (skeleton, merger_init\<lparr>merged_spec := skeleton\<rparr>)"
    by (auto simp: merge_all_def ebind_def clean_init save_spec_def)
  then show "\<exists>st. merge_all spec_files conflict_strategy output_format = Inr (skeleton, st)
              \<and> files_processed st = 0 \<and> paths_merged st = 0 \<and> operations_merged st = 0
              \<and> path_conflicts st = 0 \<and> component_conflicts st = []"
    by (simp add: merger_init_def)
qed

theorem merge_all_core_keys_witness:
  "map_sum id fst (merge_all [Inl (ValueError ''Failed to parse''), Inl TypeError] ''keep_first'' ''json'')
     = Inr [(''openapi'', JStr ''3.1.0''),
            (''info'', JObj [(''title'', JStr ''Merged API''), (''version'', JStr ''1.0.0'')]),
            (''paths'', JObj [])]"
  using merge_all_core_keys[of "[Inl (ValueError ''Failed to parse''), Inl TypeError]" "''keep_first''" "''json''"]
  by (auto simp: skeleton_def)

section \<open>merge\_paths: what is counted and what is written\<close>

definition lookup2 :: "dict \<Rightarrow> string \<Rightarrow> string \<Rightarrow> json option" where
  "lookup2 paths p k = (case map_of paths p of Some (JObj item) \<Rightarrow> map_of item k | _ \<Rightarrow> None)"

definition path_entries :: "dict \<Rightarrow> (string \<times> string \<times> json) list" where
  "path_entries paths = concat (map (\<lambda>(p, it). case it of JObj d \<Rightarrow> map (\<lambda>(k, v). (p, k, v)) d | _ \<Rightarrow> []) paths)"

lemma merge_methods_step:
  assumes "map_of (merged_spec st) ''paths'' = Some (JObj tp)" "map_of tp p = Some (JObj item)"
  shows "merge_methods p ((k, v) # rest) st =
     merge_methods p rest
       (st\<lparr>merged_spec := AList.update ''paths'' (JObj (AList.update p (JObj (AList.update k v item)) tp)) (merged_spec st),
           path_conflicts := path_conflicts st + (if map_of item k \<noteq> None then 1 else 0),
           operations_merged := operations_merged st + (if k \<in> set HTTP_METHODS then 1 else 0)\<rparr>)"
  using assms
  by (cases st) (simp add: ebind_def merged_get_def py_getitem_def str_in_def py_setitem_def merged_set_def Let_def)

lemma merge_methods_effect:
  assumes "map_of (merged_spec st) ''paths'' = Some (JObj tp)" "map_of tp p = Some (JObj item)"
    "distinct (map fst d)"
  shows "\<exists>st' tp' item'. merge_methods p d st = Inr st'
      \<and> map_of (merged_spec st') ''paths'' = Some (JObj tp')
      \<and> map_of tp' p = Some (JObj item') \<and> (\<forall>q. q \<noteq> p \<longrightarrow> map_of tp' q = map_of tp q)
      \<and> (\<forall>k. map_of item' k = (case map_of d k of Some v \<Rightarrow> Some v | None \<Rightarrow> map_of item k))
      \<and> path_conflicts st' = path_conflicts st + int (length (filter (\<lambda>(k, v). map_of item k \<noteq> None) d))
      \<and> operations_merged st' = operations_merged st + int (length (filter (\<lambda>(k, v). k \<in> set HTTP_METHODS) d))
      \<and> paths_merged st' = paths_merged st"
  using assms
proof (induction d arbitrary: st tp item)
  case Nil
  then show ?case by simp
next
  case (Cons a d)
  obtain k v where a: "a = (k, v)" by (cases a)
  let ?item1 = "AList.update k v item"
  let ?tp1 = "AList.update p (JObj ?item1) tp"
  let ?st1 = "st\<lparr>merged_spec := AList.update ''paths'' (JObj ?tp1) (merged_spec st),
           path_conflicts := path_conflicts st + (if map_of item k \<noteq> None then 1 else 0),
           operations_merged := operations_merged st + (if k \<in> set HTTP_METHODS then 1 else 0)\<rparr>"
  have step: "merge_methods p (a # d) st = merge_methods p d ?st1"
    unfolding a using Cons.prems(1,2) by (rule merge_methods_step)
  have p1: "map_of (merged_spec ?st1) ''paths'' = Some (JObj ?tp1)" by (simp add: update_conv')
  have p2: "map_of ?tp1 p = Some (JObj ?item1)" by (simp add: update_conv')
  from Cons.prems(3) have p3: "distinct (map fst d)" and knot: "k \<notin> fst ` set d" by (auto simp: a)
  from Cons.IH[OF p1 p2 p3] obtain st' tp' item' where
    r: "merge_methods p d ?st1 = Inr st'"
    "map_of (merged_spec st') ''paths'' = Some (JObj tp')"
    "map_of tp' p = Some (JObj item')" "\<forall>q. q \<noteq> p \<longrightarrow> map_of tp' q = map_of ?tp1 q"
    "\<forall>k'. map_of item' k' = (case map_of d k' of Some v \<Rightarrow> Some v | None \<Rightarrow> map_of ?item1 k')"
    "path_conflicts st' = path_conflicts ?st1 + int (length (filter (\<lambda>(k', v). map_of ?item1 k' \<noteq> None) d))"
    "operations_merged st' = operations_merged ?st1 + int (length (filter (\<lambda>(k, v). k \<in> set HTTP_METHODS) d))"
    "paths_merged st' = paths_merged ?st1"
    by blast
  have f: "filter (\<lambda>(k', v). map_of ?item1 k' \<noteq> None) d = filter (\<lambda>(k', v). map_of item k' \<noteq> None) d"
  proof (rule filter_cong[OF refl])
    fix x assume "x \<in> set d"
    with knot have "fst x \<noteq> k" by force
    then show "(case x of (k', v) \<Rightarrow> map_of ?item1 k' \<noteq> None) = (case x of (k', v) \<Rightarrow> map_of item k' \<noteq> None)"
      by (cases x) (simp add: update_conv')
  qed
  have kd: "map_of d k = None" using knot by (simp add: map_of_eq_None_iff)
  have "\<forall>k'. map_of item' k' = (case map_of (a # d) k' of Some v \<Rightarrow> Some v | None \<Rightarrow> map_of item k')"
    using r(5) kd by (auto simp: a update_conv' split: option.splits)
  moreover have "\<forall>q. q \<noteq> p \<longrightarrow> map_of tp' q = map_of tp q"
    using r(4) by (simp add: update_conv')
  moreover have "path_conflicts st' = path_conflicts st + int (length (filter (\<lambda>(k, v). map_of item k \<noteq> None) (a # d)))"
    using r(6) f by (simp add: a)
  moreover have "operations_merged st' = operations_merged st + int (length (filter (\<lambda>(k, v). k \<in> set HTTP_METHODS) (a # d)))"
    using r(7) by (simp add: a)
  moreover have "paths_merged st' = paths_merged st" using r(8) by simp
  ultimately show ?case using step r(1,2,3) by auto
qed


definition objs :: "dict \<Rightarrow> bool" where
  "objs tp = (\<forall>q it. map_of tp q = Some it \<longrightarrow> is_obj it)"

lemma merge_one_path:
  assumes P: "map_of (merged_spec st) ''paths'' = Some (JObj tp)" and inv: "objs tp"
    and dist: "distinct (map fst d)"
  shows "\<exists>st2 tp2. merge_path_items ((p, JObj d) # rest) st = merge_path_items rest st2
      \<and> map_of (merged_spec st2) ''paths'' = Some (JObj tp2) \<and> objs tp2
      \<and> (\<forall>q. q \<noteq> p \<longrightarrow> map_of tp2 q = map_of tp q) \<and> map_of tp2 p \<noteq> None
      \<and> (\<forall>k. lookup2 tp2 p k = (case map_of d k of Some v \<Rightarrow> Some v | None \<Rightarrow> lookup2 tp p k))
      \<and> paths_merged st2 = paths_merged st + (if map_of tp p = None then 1 else 0)
      \<and> path_conflicts st2 = path_conflicts st + int (length (filter (\<lambda>(k, v). lookup2 tp p k \<noteq> None) d))
      \<and> operations_merged st2 = operations_merged st + int (length (filter (\<lambda>(k, v). k \<in> set HTTP_METHODS) d))"
proof -
  define item where "item = (case map_of tp p of Some (JObj i) \<Rightarrow> i | _ \<Rightarrow> [])"
  define tp1 where "tp1 = (if map_of tp p = None then AList.update p (JObj []) tp else tp)"
  define st1 where "st1 = (if map_of tp p = None
      then (merged_set ''paths'' (JObj tp1) st)\<lparr>paths_merged := paths_merged st + 1\<rparr> else st)"
  have head: "merge_path_items ((p, JObj d) # rest) st = ebind (merge_methods p d st1) (merge_path_items rest)"
    using P by (simp add: ebind_def merged_get_def str_in_def py_setitem_def st1_def tp1_def)
  have P1: "map_of (merged_spec st1) ''paths'' = Some (JObj tp1)"
    using P by (simp add: st1_def tp1_def merged_set_def update_conv')
  have I1: "map_of tp1 p = Some (JObj item)"
  proof (cases "map_of tp p")
    case None
    then show ?thesis by (simp add: tp1_def item_def update_conv')
  next
    case (Some it)
    with inv have "is_obj it" by (simp add: objs_def)
    with Some show ?thesis by (cases it) (simp_all add: tp1_def item_def is_obj_def)
  qed
  have L: "\<And>k. map_of item k = lookup2 tp p k"
    by (simp add: item_def lookup2_def split: option.splits json.splits)
  from merge_methods_effect[OF P1 I1 dist] obtain st2 tp2 item' where
    r: "merge_methods p d st1 = Inr st2"
    "map_of (merged_spec st2) ''paths'' = Some (JObj tp2)"
    "map_of tp2 p = Some (JObj item')" "\<forall>q. q \<noteq> p \<longrightarrow> map_of tp2 q = map_of tp1 q"
    "\<forall>k. map_of item' k = (case map_of d k of Some v \<Rightarrow> Some v | None \<Rightarrow> map_of item k)"
    "path_conflicts st2 = path_conflicts st1 + int (length (filter (\<lambda>(k, v). map_of item k \<noteq> None) d))"
    "operations_merged st2 = operations_merged st1 + int (length (filter (\<lambda>(k, v). k \<in> set HTTP_METHODS) d))"
    "paths_merged st2 = paths_merged st1"
    by blast
  have q: "\<forall>q. q \<noteq> p \<longrightarrow> map_of tp2 q = map_of tp q"
    using r(4) by (simp add: tp1_def update_conv')
  have "objs tp2"
    unfolding objs_def
  proof (intro allI impI)
    fix q it assume m: "map_of tp2 q = Some it"
    show "is_obj it"
    proof (cases "q = p")
      case True
      with m r(3) show ?thesis by (auto simp: is_obj_def)
    next
      case False
      with m q inv show ?thesis by (simp add: objs_def)
    qed
  qed
  moreover have "\<forall>k. lookup2 tp2 p k = (case map_of d k of Some v \<Rightarrow> Some v | None \<Rightarrow> lookup2 tp p k)"
  proof
    fix k
    have "lookup2 tp2 p k = map_of item' k" using r(3) by (simp add: lookup2_def)
    also have "\<dots> = (case map_of d k of Some v \<Rightarrow> Some v | None \<Rightarrow> map_of item k)" using r(5) by simp
    finally show "lookup2 tp2 p k = (case map_of d k of Some v \<Rightarrow> Some v | None \<Rightarrow> lookup2 tp p k)"
      by (simp only: L)
  qed
  moreover have "paths_merged st2 = paths_merged st + (if map_of tp p = None then 1 else 0)"
    using r(8) by (simp add: st1_def merged_set_def)
  moreover have "path_conflicts st2 = path_conflicts st + int (length (filter (\<lambda>(k, v). lookup2 tp p k \<noteq> None) d))"
    using r(6) L by (simp add: st1_def merged_set_def)
  moreover have "operations_merged st2 = operations_merged st + int (length (filter (\<lambda>(k, v). k \<in> set HTTP_METHODS) d))"
    using r(7) by (simp add: st1_def merged_set_def)
  moreover have "merge_path_items ((p, JObj d) # rest) st = merge_path_items rest st2"
    using head r(1) by (simp add: ebind_def)
  ultimately show ?thesis using r(2,3) q by auto
qed


lemma lookup2_Cons_nonobj:
  "\<not> is_obj it \<Longrightarrow> p \<notin> fst ` set sp \<Longrightarrow> lookup2 ((p, it) # sp) q k = lookup2 sp q k"
  by (cases it) (auto simp: lookup2_def is_obj_def map_of_eq_None_iff[THEN iffD2] split: option.splits)

lemma lookup2_Cons_obj:
  "p \<notin> fst ` set sp \<Longrightarrow> lookup2 ((p, JObj d) # sp) q k = (if q = p then map_of d k else lookup2 sp q k)"
  by (auto simp: lookup2_def)

lemma lookup2_absent: "p \<notin> fst ` set sp \<Longrightarrow> lookup2 sp p k = None"
  by (simp add: lookup2_def map_of_eq_None_iff[THEN iffD2])

lemma lookup2_cong: "map_of a q = map_of b q \<Longrightarrow> lookup2 a q k = lookup2 b q k"
  by (simp add: lookup2_def)

lemma merge_path_items_effect:
  assumes "map_of (merged_spec st) ''paths'' = Some (JObj tp)" "objs tp"
    "distinct (map fst sp)"
    "\<forall>(p, it)\<in>set sp. case it of JObj d \<Rightarrow> distinct (map fst d) | _ \<Rightarrow> True"
  shows "\<exists>st' tp'. merge_path_items sp st = Inr st'
     \<and> map_of (merged_spec st') ''paths'' = Some (JObj tp') \<and> objs tp'
     \<and> (\<forall>q. q \<notin> fst ` set sp \<longrightarrow> map_of tp' q = map_of tp q)
     \<and> (\<forall>q k. lookup2 tp' q k = (case lookup2 sp q k of Some v \<Rightarrow> Some v | None \<Rightarrow> lookup2 tp q k))
     \<and> paths_merged st' = paths_merged st + int (length (filter (\<lambda>(p, it). is_obj it \<and> map_of tp p = None) sp))
     \<and> path_conflicts st' = path_conflicts st + int (length (filter (\<lambda>(p, k, v). lookup2 tp p k \<noteq> None) (path_entries sp)))
     \<and> operations_merged st' = operations_merged st + int (length (filter (\<lambda>(p, k, v). k \<in> set HTTP_METHODS) (path_entries sp)))
     \<and> (\<forall>(p, it)\<in>set sp. is_obj it \<longrightarrow> map_of tp' p \<noteq> None)
     \<and> (\<forall>(p, it)\<in>set sp. \<not> is_obj it \<longrightarrow> map_of tp' p = map_of tp p)"
  using assms
proof (induction sp arbitrary: st tp)
  case Nil
  then show ?case by (simp add: path_entries_def lookup2_def)
next
  case (Cons a sp)
  obtain p it where a: "a = (p, it)" by (cases a)
  from Cons.prems(3) have pn: "p \<notin> fst ` set sp" and dsp: "distinct (map fst sp)" by (auto simp: a)
  from Cons.prems(4) have wsp: "\<forall>(p, it)\<in>set sp. case it of JObj d \<Rightarrow> distinct (map fst d) | _ \<Rightarrow> True"
    by simp
  show ?case
  proof (cases "is_obj it")
    case False
    then have skip: "merge_path_items (a # sp) st = merge_path_items sp st"
      by (cases it) (simp_all add: a is_obj_def)
    have pe: "path_entries (a # sp) = path_entries sp"
      using False by (cases it) (simp_all add: a is_obj_def path_entries_def)
    from Cons.IH[OF Cons.prems(1,2) dsp wsp] obtain st' tp' where
      r: "merge_path_items sp st = Inr st'" "map_of (merged_spec st') ''paths'' = Some (JObj tp')" "objs tp'"
      "\<forall>q. q \<notin> fst ` set sp \<longrightarrow> map_of tp' q = map_of tp q"
      "\<forall>q k. lookup2 tp' q k = (case lookup2 sp q k of Some v \<Rightarrow> Some v | None \<Rightarrow> lookup2 tp q k)"
      "paths_merged st' = paths_merged st + int (length (filter (\<lambda>(p, it). is_obj it \<and> map_of tp p = None) sp))"
      "path_conflicts st' = path_conflicts st + int (length (filter (\<lambda>(p, k, v). lookup2 tp p k \<noteq> None) (path_entries sp)))"
      "operations_merged st' = operations_merged st + int (length (filter (\<lambda>(p, k, v). k \<in> set HTTP_METHODS) (path_entries sp)))"
      "\<forall>(p, it)\<in>set sp. is_obj it \<longrightarrow> map_of tp' p \<noteq> None"
      "\<forall>(p, it)\<in>set sp. \<not> is_obj it \<longrightarrow> map_of tp' p = map_of tp p"
      by (elim exE conjE)
    have g9: "\<forall>(p, it)\<in>set (a # sp). is_obj it \<longrightarrow> map_of tp' p \<noteq> None"
      using r(9) False by (simp add: a)
    have "map_of tp' p = map_of tp p" using r(4) pn by simp
    then have g10: "\<forall>(p, it)\<in>set (a # sp). \<not> is_obj it \<longrightarrow> map_of tp' p = map_of tp p"
      using r(10) by (simp add: a)
    have g5: "\<forall>q k. lookup2 tp' q k = (case lookup2 (a # sp) q k of Some v \<Rightarrow> Some v | None \<Rightarrow> lookup2 tp q k)"
      using r(5) by (simp add: a lookup2_Cons_nonobj[OF False pn])
    have g4: "\<forall>q. q \<notin> fst ` set (a # sp) \<longrightarrow> map_of tp' q = map_of tp q"
      using r(4) by simp
    have g6: "paths_merged st' = paths_merged st + int (length (filter (\<lambda>(p, it). is_obj it \<and> map_of tp p = None) (a # sp)))"
      using r(6) False by (simp add: a)
    have g1: "merge_path_items (a # sp) st = Inr st'" using skip r(1) by simp
    note g7 = r(7)[folded pe] and g8 = r(8)[folded pe]
    show ?thesis
      by (intro exI[of _ st'] exI[of _ tp'] conjI) (fact g1 r(2) r(3) g4 g5 g6 g7 g8 g9 g10)+
  next
    case True
    then obtain d where it: "it = JObj d" by (cases it) (simp_all add: is_obj_def)
    from Cons.prems(4) have dd: "distinct (map fst d)" by (simp add: a it)
    from merge_one_path[OF Cons.prems(1,2) dd, of p sp] obtain st2 tp2 where
      o: "merge_path_items ((p, JObj d) # sp) st = merge_path_items sp st2"
      "map_of (merged_spec st2) ''paths'' = Some (JObj tp2)" "objs tp2"
      "\<forall>q. q \<noteq> p \<longrightarrow> map_of tp2 q = map_of tp q" "map_of tp2 p \<noteq> None"
      "\<forall>k. lookup2 tp2 p k = (case map_of d k of Some v \<Rightarrow> Some v | None \<Rightarrow> lookup2 tp p k)"
      "paths_merged st2 = paths_merged st + (if map_of tp p = None then 1 else 0)"
      "path_conflicts st2 = path_conflicts st + int (length (filter (\<lambda>(k, v). lookup2 tp p k \<noteq> None) d))"
      "operations_merged st2 = operations_merged st + int (length (filter (\<lambda>(k, v). k \<in> set HTTP_METHODS) d))"
      by blast
    from Cons.IH[OF o(2,3) dsp wsp] obtain st' tp' where
      r: "merge_path_items sp st2 = Inr st'" "map_of (merged_spec st') ''paths'' = Some (JObj tp')" "objs tp'"
      "\<forall>q. q \<notin> fst ` set sp \<longrightarrow> map_of tp' q = map_of tp2 q"
      "\<forall>q k. lookup2 tp' q k = (case lookup2 sp q k of Some v \<Rightarrow> Some v | None \<Rightarrow> lookup2 tp2 q k)"
      "paths_merged st' = paths_merged st2 + int (length (filter (\<lambda>(p, it). is_obj it \<and> map_of tp2 p = None) sp))"
      "path_conflicts st' = path_conflicts st2 + int (length (filter (\<lambda>(p, k, v). lookup2 tp2 p k \<noteq> None) (path_entries sp)))"
      "operations_merged st' = operations_merged st2 + int (length (filter (\<lambda>(p, k, v). k \<in> set HTTP_METHODS) (path_entries sp)))"
      "\<forall>(p, it)\<in>set sp. is_obj it \<longrightarrow> map_of tp' p \<noteq> None"
      "\<forall>(p, it)\<in>set sp. \<not> is_obj it \<longrightarrow> map_of tp' p = map_of tp2 p"
      by (elim exE conjE)
    have "map_of tp' p = map_of tp2 p" using r(4) pn by simp
    with o(5) have "map_of tp' p \<noteq> None" by simp
    then have g9: "\<forall>(p, it)\<in>set (a # sp). is_obj it \<longrightarrow> map_of tp' p \<noteq> None"
      using r(9) by (simp add: a)
    have g10: "\<forall>(p, it)\<in>set (a # sp). \<not> is_obj it \<longrightarrow> map_of tp' p = map_of tp p"
    proof (intro ballI)
      fix x assume x: "x \<in> set (a # sp)"
      show "case x of (p, it) \<Rightarrow> \<not> is_obj it \<longrightarrow> map_of tp' p = map_of tp p"
      proof (cases "x = a")
        case True
        then show ?thesis by (simp add: a it is_obj_def)
      next
        case False
        with x have xs: "x \<in> set sp" by simp
        with pn have "fst x \<noteq> p" by force
        with o(4) have "map_of tp2 (fst x) = map_of tp (fst x)" by simp
        with r(10) xs show ?thesis by (auto simp: case_prod_unfold)
      qed
    qed
    have f1: "filter (\<lambda>(p, it). is_obj it \<and> map_of tp2 p = None) sp = filter (\<lambda>(p, it). is_obj it \<and> map_of tp p = None) sp"
    proof (rule filter_cong[OF refl])
      fix x assume "x \<in> set sp"
      with pn have "fst x \<noteq> p" by force
      with o(4) show "(case x of (p, it) \<Rightarrow> is_obj it \<and> map_of tp2 p = None) = (case x of (p, it) \<Rightarrow> is_obj it \<and> map_of tp p = None)"
        by (cases x) simp
    qed
    have pe_keys: "\<And>x. x \<in> set (path_entries sp) \<Longrightarrow> fst x \<in> fst ` set sp"
      by (force simp: path_entries_def split: json.splits)
    have f2: "filter (\<lambda>(p, k, v). lookup2 tp2 p k \<noteq> None) (path_entries sp) = filter (\<lambda>(p, k, v). lookup2 tp p k \<noteq> None) (path_entries sp)"
    proof (rule filter_cong[OF refl])
      fix x assume "x \<in> set (path_entries sp)"
      then have "fst x \<in> fst ` set sp" by (rule pe_keys)
      with pn have "fst x \<noteq> p" by auto
      with o(4) have "map_of tp2 (fst x) = map_of tp (fst x)" by simp
      then have "lookup2 tp2 (fst x) (fst (snd x)) = lookup2 tp (fst x) (fst (snd x))"
        by (rule lookup2_cong)
      then show "(case x of (p, k, v) \<Rightarrow> lookup2 tp2 p k \<noteq> None) = (case x of (p, k, v) \<Rightarrow> lookup2 tp p k \<noteq> None)"
        by (simp add: case_prod_unfold)
    qed
    have pe: "path_entries (a # sp) = map (\<lambda>(k, v). (p, k, v)) d @ path_entries sp"
      by (simp add: a it path_entries_def)
    have c1: "length (filter (\<lambda>(p, k, v). lookup2 tp p k \<noteq> None) (map (\<lambda>(k, v). (p, k, v)) d)) = length (filter (\<lambda>(k, v). lookup2 tp p k \<noteq> None) d)"
      by (simp add: filter_map comp_def case_prod_unfold)
    have c2: "length (filter (\<lambda>(p, k, v). k \<in> set HTTP_METHODS) (map (\<lambda>(k, v). (p, k, v)) d)) = length (filter (\<lambda>(k, v). k \<in> set HTTP_METHODS) d)"
      by (simp add: filter_map comp_def case_prod_unfold)
    have g5: "\<forall>q k. lookup2 tp' q k = (case lookup2 (a # sp) q k of Some v \<Rightarrow> Some v | None \<Rightarrow> lookup2 tp q k)"
    proof (intro allI)
      fix q k
      show "lookup2 tp' q k = (case lookup2 (a # sp) q k of Some v \<Rightarrow> Some v | None \<Rightarrow> lookup2 tp q k)"
      proof (cases "q = p")
        case True
        from r(5) o(6) pn show ?thesis
          unfolding True by (simp add: a it lookup2_Cons_obj lookup2_absent)
      next
        case False
        with o(4) have "map_of tp2 q = map_of tp q" by simp
        then have "lookup2 tp2 q k = lookup2 tp q k" by (rule lookup2_cong)
        with r(5) False pn show ?thesis by (simp add: a it lookup2_Cons_obj split: option.splits)
      qed
    qed
    have g4: "\<forall>q. q \<notin> fst ` set (a # sp) \<longrightarrow> map_of tp' q = map_of tp q"
      using r(4) o(4) by (simp add: a)
    have g6: "paths_merged st' = paths_merged st + int (length (filter (\<lambda>(p, it). is_obj it \<and> map_of tp p = None) (a # sp)))"
      using r(6) o(7) f1 by (simp add: a it is_obj_def)
    have g7: "path_conflicts st' = path_conflicts st + int (length (filter (\<lambda>(p, k, v). lookup2 tp p k \<noteq> None) (path_entries (a # sp))))"
      using r(7) o(8) f2 c1 by (simp add: pe)
    have g8: "operations_merged st' = operations_merged st + int (length (filter (\<lambda>(p, k, v). k \<in> set HTTP_METHODS) (path_entries (a # sp))))"
      using r(8) o(9) c2 by (simp add: pe)
    have g1: "merge_path_items (a # sp) st = Inr st'" using o(1) r(1) by (simp add: a it)
    show ?thesis
      by (intro exI[of _ st'] exI[of _ tp'] conjI) (fact g1 r(2) r(3) g4 g5 g6 g7 g8 g9 g10)+
  qed
qed


definition mappings_only :: "dict \<Rightarrow> bool" where
  "mappings_only paths = list_all (\<lambda>(p, it). is_obj it) paths"

definition wf_paths :: "dict \<Rightarrow> bool" where
  "wf_paths paths = (wf_dict paths \<and> list_all (\<lambda>(p, it). case it of JObj d \<Rightarrow> wf_dict d | _ \<Rightarrow> True) paths)"

lemma mappings_only_objs: "mappings_only tp \<Longrightarrow> objs tp"
  by (auto simp: mappings_only_def objs_def list_all_iff dest!: map_of_SomeD)

text \<open>
  Claim C3, as amended. Merging the paths of a source file into the target: for each path item
  of the source that is a mapping and whose path is absent from the target, a path entry is
  created and \<^verbatim>\<open>paths_merged\<close> incremented, so that afterwards the target has an entry for
  every path of the source whose item is a mapping; a path item that is not a mapping is
  skipped, and the target is as it was at that path and at every path the source does not
  have; every key of a path item that already exists at that path in the target increments
  \<^verbatim>\<open>path_conflicts\<close>, whether it is an HTTP method or not, and the incoming value overwrites
  the old one (last write wins, whatever the component conflict policy); every key written
  that is one of the eight HTTP methods increments \<^verbatim>\<open>operations_merged\<close>.
\<close>

theorem merge_paths_effect:
  assumes "map_of (merged_spec st) ''paths'' = Some (JObj tp)" "mappings_only tp"
    and "map_of spec ''paths'' = Some (JObj sp)" "wf_paths sp"
  shows "\<exists>st' tp'. merge_paths spec st = Inr st'
     \<and> map_of (merged_spec st') ''paths'' = Some (JObj tp')
     \<and> (\<forall>(p, it)\<in>set sp. is_obj it \<longrightarrow> map_of tp' p \<noteq> None)
     \<and> (\<forall>(p, it)\<in>set sp. \<not> is_obj it \<longrightarrow> map_of tp' p = map_of tp p)
     \<and> (\<forall>q. q \<notin> fst ` set sp \<longrightarrow> map_of tp' q = map_of tp q)
     \<and> (\<forall>q k. lookup2 tp' q k = (case lookup2 sp q k of Some v \<Rightarrow> Some v | None \<Rightarrow> lookup2 tp q k))
     \<and> paths_merged st' = paths_merged st + int (length (filter (\<lambda>(p, it). is_obj it \<and> map_of tp p = None) sp))
     \<and> path_conflicts st' = path_conflicts st + int (length (filter (\<lambda>(p, k, v). lookup2 tp p k \<noteq> None) (path_entries sp)))
     \<and> operations_merged st' = operations_merged st + int (length (filter (\<lambda>(p, k, v). k \<in> set HTTP_METHODS) (path_entries sp)))"
proof -
  from assms(4) have d: "distinct (map fst sp)"
    and w: "\<forall>(p, it)\<in>set sp. case it of JObj d \<Rightarrow> distinct (map fst d) | _ \<Rightarrow> True"
    by (auto simp: wf_paths_def wf_dict_def list_all_iff split: json.splits)
  from merge_path_items_effect[OF assms(1) mappings_only_objs[OF assms(2)] d w]
  obtain st' tp' where
    r: "merge_path_items sp st = Inr st'" "map_of (merged_spec st') ''paths'' = Some (JObj tp')"
      "objs tp'"
      "\<forall>q. q \<notin> fst ` set sp \<longrightarrow> map_of tp' q = map_of tp q"
      "\<forall>q k. lookup2 tp' q k = (case lookup2 sp q k of Some v \<Rightarrow> Some v | None \<Rightarrow> lookup2 tp q k)"
      "paths_merged st' = paths_merged st + int (length (filter (\<lambda>(p, it). is_obj it \<and> map_of tp p = None) sp))"
      "path_conflicts st' = path_conflicts st + int (length (filter (\<lambda>(p, k, v). lookup2 tp p k \<noteq> None) (path_entries sp)))"
      "operations_merged st' = operations_merged st + int (length (filter (\<lambda>(p, k, v). k \<in> set HTTP_METHODS) (path_entries sp)))"
      "\<forall>(p, it)\<in>set sp. is_obj it \<longrightarrow> map_of tp' p \<noteq> None"
      "\<forall>(p, it)\<in>set sp. \<not> is_obj it \<longrightarrow> map_of tp' p = map_of tp p"
    by (elim exE conjE)
  have m: "merge_paths spec st = Inr st'"
    using assms(3) r(1) by (simp add: merge_paths_def py_items_def ebind_def)
  show ?thesis
    by (intro exI[of _ st'] exI[of _ tp'] conjI) (fact m r(2) r(9) r(10) r(4) r(5) r(6) r(7) r(8))+
qed

definition paths_a :: dict where
  "paths_a = [(''/pets'', JObj [(''parameters'', JArr [JStr ''limit'']),
                               (''get'', JObj [(''summary'', JStr ''list'')])])]"

definition paths_b :: dict where
  "paths_b = [(''/pets'', JObj [(''parameters'', JArr [JStr ''limit'']),
                               (''post'', JObj [(''summary'', JStr ''add'')])]),
              (''/owners'', JObj [(''get'', JObj [])])]"

definition file_a :: dict where
  "file_a = [(''openapi'', JStr ''3.0.0''), (''paths'', JObj paths_a)]"

definition file_b :: dict where
  "file_b = [(''openapi'', JStr ''3.0.0''), (''paths'', JObj paths_b)]"

definition file_c :: dict where
  "file_c = [(''openapi'', JStr ''3.0.0''), (''paths'', JObj [(''/broken'', JStr ''not a mapping'')])]"

definition dup_method_keys :: "dict \<Rightarrow> dict \<Rightarrow> (string \<times> string \<times> json) list" where
  "dup_method_keys target source =
     filter (\<lambda>(p, k, v). k \<in> set HTTP_METHODS \<and> lookup2 target p k \<noteq> None) (path_entries source)"

definition st_a :: merger where
  "st_a = merger_init\<lparr>merged_spec := AList.update ''paths'' (JObj paths_a) (merged_spec merger_init),
                       paths_merged := 1, operations_merged := 1\<rparr>"

lemma merge_paths_file_a: "merge_paths file_a merger_init = Inr st_a"
  by (simp add: merge_paths_def file_a_def paths_a_def st_a_def merger_init_def py_items_def ebind_def
        merged_get_def str_in_def py_setitem_def py_getitem_def merged_set_def HTTP_METHODS_def)

theorem merge_paths_effect_witness:
  "map_of (merged_spec st_a) ''paths'' = Some (JObj paths_a) \<and> mappings_only paths_a
   \<and> map_of file_b ''paths'' = Some (JObj paths_b) \<and> wf_paths paths_b
   \<and> map_sum id (\<lambda>st'. (paths_merged st', path_conflicts st', operations_merged st',
                          map_option (\<lambda>tp'. (map_of tp' ''/owners'' \<noteq> None, lookup2 tp' ''/pets'' ''get'' \<noteq> None))
                            (case map_of (merged_spec st') ''paths'' of Some (JObj tp') \<Rightarrow> Some tp' | _ \<Rightarrow> None)))
        (merge_paths file_b st_a) = Inr (2, 1, 3, Some (True, True))"
proof -
  have h1: "map_of (merged_spec st_a) ''paths'' = Some (JObj paths_a)"
    by (simp add: st_a_def merger_init_def)
  have h2: "mappings_only paths_a"
    by (simp add: mappings_only_def paths_a_def is_obj_def)
  have h3: "map_of file_b ''paths'' = Some (JObj paths_b)"
    by (simp add: file_b_def)
  have h4: "wf_paths paths_b"
    by (simp add: wf_paths_def wf_dict_def paths_b_def)
  from merge_paths_effect[OF h1 h2 h3 h4] obtain st' tp' where
    e: "merge_paths file_b st_a = Inr st'"
    "map_of (merged_spec st') ''paths'' = Some (JObj tp')"
    "\<forall>(p, it)\<in>set paths_b. is_obj it \<longrightarrow> map_of tp' p \<noteq> None"
    "\<forall>q k. lookup2 tp' q k = (case lookup2 paths_b q k of Some v \<Rightarrow> Some v | None \<Rightarrow> lookup2 paths_a q k)"
    "paths_merged st' = paths_merged st_a + int (length (filter (\<lambda>(p, it). is_obj it \<and> map_of paths_a p = None) paths_b))"
    "path_conflicts st' = path_conflicts st_a + int (length (filter (\<lambda>(p, k, v). lookup2 paths_a p k \<noteq> None) (path_entries paths_b)))"
    "operations_merged st' = operations_merged st_a + int (length (filter (\<lambda>(p, k, v). k \<in> set HTTP_METHODS) (path_entries paths_b)))"
    by (elim exE conjE)
  from e(3) have o: "map_of tp' ''/owners'' \<noteq> None"
    by (simp add: paths_b_def is_obj_def)
  have g: "lookup2 tp' ''/pets'' ''get'' \<noteq> None"
    by (simp add: e(4)) (simp add: paths_a_def paths_b_def lookup2_def)
  have c: "paths_merged st' = 2 \<and> path_conflicts st' = 1 \<and> operations_merged st' = 3"
    unfolding e(5) e(6) e(7)
    by (simp add: st_a_def merger_init_def paths_a_def paths_b_def is_obj_def lookup2_def
          path_entries_def HTTP_METHODS_def)
  have "map_sum id (\<lambda>st'. (paths_merged st', path_conflicts st', operations_merged st',
                          map_option (\<lambda>tp'. (map_of tp' ''/owners'' \<noteq> None, lookup2 tp' ''/pets'' ''get'' \<noteq> None))
                            (case map_of (merged_spec st') ''paths'' of Some (JObj tp') \<Rightarrow> Some tp' | _ \<Rightarrow> None)))
        (merge_paths file_b st_a) = Inr (2, 1, 3, Some (True, True))"
    using o g c by (simp add: e(1) e(2))
  with h1 h2 h3 h4 show ?thesis by simp
qed

text \<open>
  The claim as stated has \<^verbatim>\<open>path_conflicts\<close> count duplicate HTTP-method keys only. Merging
  \<open>file_a\<close> and then \<open>file_b\<close>, which share the path-level key \<^verbatim>\<open>parameters\<close> of \<^verbatim>\<open>/pets\<close>
  and no HTTP method there, counts one conflict. The claim as stated also has an entry created
  for each path absent from the target. The path \<^verbatim>\<open>/broken\<close> of \<open>file_c\<close> is absent from the
  empty target and its item is not a mapping: the merge skips it and returns the state it was
  given, with no entry and \<^verbatim>\<open>paths_merged\<close> still 0.
\<close>

theorem merge_paths_conflicts_counterexample:
  "map_sum id path_conflicts (ebind (merge_paths file_a merger_init) (merge_paths file_b)) = Inr 1
   \<and> dup_method_keys paths_a paths_b = []
   \<and> merge_paths file_c merger_init = Inr merger_init
   \<and> map_of (merged_spec merger_init) ''paths'' = Some (JObj [])
   \<and> paths_merged merger_init = 0"
proof -
  have a: "map_sum id path_conflicts (ebind (merge_paths file_a merger_init) (merge_paths file_b)) = Inr 1
      \<and> dup_method_keys paths_a paths_b = []"
    by (simp add: merge_paths_file_a ebind_def)
       (simp add: merge_paths_def file_b_def paths_a_def paths_b_def st_a_def merger_init_def py_items_def ebind_def
          merged_get_def str_in_def py_setitem_def py_getitem_def merged_set_def HTTP_METHODS_def
          dup_method_keys_def path_entries_def lookup2_def)
  have c: "merge_paths file_c merger_init = Inr merger_init"
    by (simp add: merge_paths_def file_c_def py_items_def ebind_def)
  have i: "map_of (merged_spec merger_init) ''paths'' = Some (JObj [])" "paths_merged merger_init = 0"
    by (simp_all add: merger_init_def)
  from a c i show ?thesis by simp
qed

section \<open>create\_mini\_spec: the mini-document\<close>

lemma is_substring_prefix: "prefix sep s \<Longrightarrow> is_substring sep s"
  by (cases s) auto

lemma is_substring_append: "is_substring sep (t @ sep @ l)"
  by (induction t) (auto intro: is_substring_prefix)

lemma split_first_title:
  "\<not> is_substring '' - '' t \<Longrightarrow> \<not> suffix '' -'' t \<Longrightarrow> split_first '' - '' (t @ '' - '' @ l) = t"
proof (induction t)
  case Nil
  then show ?case by simp
next
  case (Cons c cs)
  have np: "\<not> prefix '' - '' (c # cs @ '' - '' @ l)"
  proof
    assume p: "prefix '' - '' (c # cs @ '' - '' @ l)"
    show False
    proof (cases cs)
      case Nil
      with p show ?thesis by simp
    next
      case (Cons x xs)
      note cs = this
      show ?thesis
      proof (cases xs)
        case Nil
        with p cs have "c # cs = '' -''" by simp
        with Cons.prems(2) show ?thesis by simp
      next
        case (Cons y ys)
        with p cs have "prefix '' - '' (c # cs)" by auto
        with Cons.prems(1) show ?thesis by auto
      qed
    qed
  qed
  from Cons.prems have "\<not> is_substring '' - '' cs" "\<not> suffix '' -'' cs"
    by (auto simp: suffix_Cons)
  with Cons.IH np show ?case by simp
qed


lemma copy_prop_frame:
  "copy_prop sp prop m = Inr m' \<Longrightarrow> k \<noteq> prop \<Longrightarrow> map_of m' k = map_of m k"
  by (auto simp: copy_prop_def update_conv' split: option.splits dest!: ebind_Inr)

lemma copy_prop_val:
  "copy_prop sp prop m = Inr m' \<Longrightarrow> map_of m prop = None \<Longrightarrow>
   (case map_of m' prop of None \<Rightarrow> True | Some v \<Rightarrow> py_copy v = Inr v)"
  by (auto simp: copy_prop_def update_conv' py_copy_def split: option.splits json.splits dest!: ebind_Inr)

lemma relevant_tags_frame:
  "relevant_tags sp endpoints m = Inr m' \<Longrightarrow> k \<noteq> ''tags'' \<Longrightarrow> map_of m' k = map_of m k"
  by (auto simp: relevant_tags_def update_conv' split: option.splits if_splits dest!: ebind_Inr)

lemma relevant_tags_val:
  "relevant_tags sp endpoints m = Inr m' \<Longrightarrow> map_of m ''tags'' = None \<Longrightarrow>
   (case map_of m' ''tags'' of None \<Rightarrow> True | Some v \<Rightarrow> py_copy v = Inr v)"
  by (auto simp: relevant_tags_def update_conv' py_copy_def split: option.splits if_splits dest!: ebind_Inr)

definition mini_components :: "splitter \<Rightarrow> bool \<Rightarrow> json option" where
  "mini_components sp include_components =
     (if include_components \<and> common_components sp \<noteq> []
      then Some (JObj (filter (\<lambda>(comp_type, components). py_truthy components) (common_components sp)))
      else None)"

lemma create_mini_spec_shape:
  assumes "create_mini_spec sp endpoints name inc = Inr mini"
  shows "\<exists>info info'. (case map_of (source_spec sp) ''info'' of
              Some i \<Rightarrow> py_copy i
            | None \<Rightarrow> Inr (JObj [(''title'', JStr ''API''), (''version'', JStr ''1.0.0'')])) = Inr info
     \<and> stamp_info sp name info = Inr info'
     \<and> map_of mini ''info'' = Some info'
     \<and> map_of mini ''openapi'' = Some (get_default (source_spec sp) ''openapi'' (JStr ''3.1.0''))
     \<and> map_of mini ''swagger'' = None
     \<and> map_of mini ''externalDocs'' = None
     \<and> map_of mini ''paths'' = Some (JObj (add_endpoints endpoints []))
     \<and> map_of mini ''components'' = mini_components sp inc
     \<and> (case map_of mini ''servers'' of None \<Rightarrow> True | Some v \<Rightarrow> py_copy v = Inr v)
     \<and> (case map_of mini ''security'' of None \<Rightarrow> True | Some v \<Rightarrow> py_copy v = Inr v)
     \<and> (case map_of mini ''tags'' of None \<Rightarrow> True | Some v \<Rightarrow> py_copy v = Inr v)"
proof -
  define mini0 where "mini0 info = [(''openapi'', get_default (source_spec sp) ''openapi'' (JStr ''3.1.0'')),
                  (''info'', info), (''paths'', JObj [])]" for info :: json
  define mini1 where "mini1 info = (if inc \<and> common_components sp \<noteq> []
                  then AList.update ''components''
                         (JObj (filter (\<lambda>(comp_type, components). py_truthy components)
                                  (common_components sp))) (mini0 info)
                  else mini0 info)" for info
  from assms obtain info mini2 mini3 mini4 info' where
    i: "(case map_of (source_spec sp) ''info'' of
              Some i \<Rightarrow> py_copy i
            | None \<Rightarrow> Inr (JObj [(''title'', JStr ''API''), (''version'', JStr ''1.0.0'')])) = Inr info"
    and c2: "copy_prop sp ''servers'' (mini1 info) = Inr mini2"
    and c3: "copy_prop sp ''security'' mini2 = Inr mini3"
    and c4: "relevant_tags sp endpoints mini3 = Inr mini4"
    and st: "stamp_info sp name info = Inr info'"
    and m: "mini = AList.update ''info'' info' (AList.update ''paths'' (JObj (add_endpoints endpoints [])) mini4)"
    unfolding create_mini_spec_def Let_def mini0_def mini1_def
    by (auto dest!: ebind_Inr)
  have m1: "map_of (mini1 info) k = (if k = ''components'' then mini_components sp inc
        else map_of (mini0 info) k)" for k
    by (simp add: mini1_def mini_components_def update_conv' mini0_def)
  have m0: "map_of (mini0 info) k = (if k = ''openapi'' then Some (get_default (source_spec sp) ''openapi'' (JStr ''3.1.0''))
       else if k = ''info'' then Some info else if k = ''paths'' then Some (JObj []) else None)" for k
    by (simp add: mini0_def)
  have f: "map_of mini4 k = map_of (mini1 info) k" if "k \<noteq> ''servers''" "k \<noteq> ''security''" "k \<noteq> ''tags''" for k
    using relevant_tags_frame[OF c4 that(3)] copy_prop_frame[OF c3 that(2)] copy_prop_frame[OF c2 that(1)]
    by simp
  have mk: "map_of mini k = (if k = ''info'' then Some info' else if k = ''paths'' then Some (JObj (add_endpoints endpoints []))
       else map_of mini4 k)" for k
    by (simp add: m update_conv')
  have s1: "(case map_of mini2 ''servers'' of None \<Rightarrow> True | Some v \<Rightarrow> py_copy v = Inr v)"
    by (rule copy_prop_val[OF c2]) (simp add: m1 m0)
  have "map_of mini4 ''servers'' = map_of mini2 ''servers''"
    using relevant_tags_frame[OF c4, of "''servers''"] copy_prop_frame[OF c3, of "''servers''"] by simp
  with s1 have g1: "(case map_of mini ''servers'' of None \<Rightarrow> True | Some v \<Rightarrow> py_copy v = Inr v)"
    by (simp add: mk)
  have "map_of mini2 ''security'' = None"
    using copy_prop_frame[OF c2, of "''security''"] by (simp add: m1 m0)
  then have s2: "(case map_of mini3 ''security'' of None \<Rightarrow> True | Some v \<Rightarrow> py_copy v = Inr v)"
    by (rule copy_prop_val[OF c3])
  have "map_of mini4 ''security'' = map_of mini3 ''security''"
    using relevant_tags_frame[OF c4, of "''security''"] by simp
  with s2 have g2: "(case map_of mini ''security'' of None \<Rightarrow> True | Some v \<Rightarrow> py_copy v = Inr v)"
    by (simp add: mk)
  have "map_of mini3 ''tags'' = None"
    using copy_prop_frame[OF c3, of "''tags''"] copy_prop_frame[OF c2, of "''tags''"] by (simp add: m1 m0)
  then have "(case map_of mini4 ''tags'' of None \<Rightarrow> True | Some v \<Rightarrow> py_copy v = Inr v)"
    by (rule relevant_tags_val[OF c4])
  then have g3: "(case map_of mini ''tags'' of None \<Rightarrow> True | Some v \<Rightarrow> py_copy v = Inr v)"
    by (simp add: mk)
  have g4: "map_of mini ''info'' = Some info'" by (simp add: mk)
  have g5: "map_of mini ''openapi'' = Some (get_default (source_spec sp) ''openapi'' (JStr ''3.1.0''))"
    by (simp add: mk f m1 m0)
  have g6: "map_of mini ''swagger'' = None" by (simp add: mk f m1 m0)
  have g7: "map_of mini ''externalDocs'' = None" by (simp add: mk f m1 m0)
  have g8: "map_of mini ''paths'' = Some (JObj (add_endpoints endpoints []))" by (simp add: mk)
  have g9: "map_of mini ''components'' = mini_components sp inc" by (simp add: mk f m1 m0)
  show ?thesis
    by (intro exI[of _ info] exI[of _ info'] conjI) (fact i st g4 g5 g6 g7 g8 g9 g1 g2 g3)+
qed

definition swagger_doc :: dict where
  "swagger_doc = [(''swagger'', JStr ''2.0''),
     (''info'', JObj [(''title'', JStr ''Pet Store''), (''version'', JStr ''1.0.0'')]),
     (''paths'', JObj [(''/pets'', JObj [(''get'', JObj [(''tags'', JArr [JStr ''pets''])])])])]"

lemma swagger_ops: "get_operations swagger_doc = Inr [(''/pets'', ''get'', JObj [(''tags'', JArr [JStr ''pets''])])]"
  by (simp add: get_operations_def swagger_doc_def get_default_def item_operations_def HTTP_METHODS_def List.map_filter_def)

text \<open>
  Claim C4. A mini-document should carry the version of its source: the \<^verbatim>\<open>openapi\<close> or the
  \<^verbatim>\<open>swagger\<close> scalar, and the default \<^verbatim>\<open>3.1.0\<close> only when the source has neither.
  \<^verbatim>\<open>create_mini_spec\<close> reads \<^verbatim>\<open>openapi\<close> alone: for a source that has only \<^verbatim>\<open>swagger: 2.0\<close>
  the mini-document says \<^verbatim>\<open>openapi: 3.1.0\<close> and has no \<^verbatim>\<open>swagger\<close> key.
\<close>

theorem create_mini_spec_swagger_source:
  "map_sum id (\<lambda>mini. (map_of mini ''openapi'', map_of mini ''swagger''))
     (ebind (splitter_init swagger_doc mtime fmt) (\<lambda>sp.
      ebind (get_operations swagger_doc) (\<lambda>endpoints.
        create_mini_spec sp endpoints ''pets'' True)))
   = Inr (Some (JStr ''3.1.0''), None)"
  by (simp add: swagger_ops ebind_def splitter_init_def extract_components_def COMPONENT_TYPES_def)
     (simp add: swagger_doc_def create_mini_spec_def ebind_def py_copy_def get_default_def copy_prop_def
        relevant_tags_def stamp_info_def py_get_def py_setitem_def format_value_def py_truthy_def)

section \<open>The title suffix: split, then merge\<close>

lemma stamp_info_obj:
  "map_of info ''title'' = Some (JStr t) \<Longrightarrow>
   stamp_info sp name (JObj info) = Inr (JObj
     (AList.update ''x-split-timestamp'' (st_mtime sp)
       (AList.update ''x-split-part'' (JStr name)
         (AList.update ''title'' (JStr (t @ '' - '' @ name)) info))))"
  by (simp add: stamp_info_def ebind_def py_get_def py_setitem_def get_default_def format_value_def)

lemma is_substring_title: "is_substring '' - '' (t @ CHR '' '' # CHR ''-'' # CHR '' '' # l)"
  using is_substring_append[of "'' - ''" t l] by simp

lemma split_first_title_cons:
  "\<not> is_substring '' - '' t \<Longrightarrow> \<not> suffix '' -'' t \<Longrightarrow>
   split_first '' - '' (t @ CHR '' '' # CHR ''-'' # CHR '' '' # l) = t"
  using split_first_title[of t l] by simp

lemma merge_info_first_stamped:
  assumes "map_of mi ''title'' = Some (JStr (t @ '' - '' @ name))"
    "map_of mi ''x-split-part'' \<noteq> None" "map_of mi ''x-split-timestamp'' \<noteq> None"
    "\<not> is_substring '' - '' t" "\<not> suffix '' -'' t"
  shows "merge_info_first (JObj mi) = Inr (JObj
      (AList.update ''title'' (JStr t) (AList.delete ''x-split-timestamp'' (AList.delete ''x-split-part'' mi))))"
  using assms
  by (simp add: merge_info_first_def ebind_def py_copy_def del_if_present_def str_in_def py_delitem_def
        delete_conv' py_get_def get_default_def is_substring_title title_before_suffix_def
        split_first_title_cons py_setitem_def)

text \<open>Frames: what each merger method leaves alone.\<close>

lemma merged_set_frame: "k \<noteq> k' \<Longrightarrow> map_of (merged_spec (merged_set k' v st)) k = map_of (merged_spec st) k"
  by (simp add: merged_set_def update_conv')

lemma merge_methods_frame:
  "merge_methods path items st = Inr st' \<Longrightarrow> k \<noteq> ''paths'' \<Longrightarrow>
   map_of (merged_spec st') k = map_of (merged_spec st) k \<and> files_processed st' = files_processed st
   \<and> component_conflicts st' = component_conflicts st"
proof (induction items arbitrary: st)
  case Nil
  then show ?case by simp
next
  case (Cons a items)
  obtain m op where a: "a = (m, op)" by (cases a)
  from Cons.prems(1) obtain st3 where
    s: "merge_methods path items st3 = Inr st'"
    and f: "map_of (merged_spec st3) k = map_of (merged_spec st) k \<and> files_processed st3 = files_processed st
       \<and> component_conflicts st3 = component_conflicts st"
    unfolding a merge_methods.simps Let_def
    using Cons.prems(2)
    by (auto dest!: ebind_Inr simp: merged_set_def update_conv' split: if_splits)
  from Cons.IH[OF s Cons.prems(2)] f show ?case by simp
qed

lemma merge_path_items_frame:
  "merge_path_items items st = Inr st' \<Longrightarrow> k \<noteq> ''paths'' \<Longrightarrow>
   map_of (merged_spec st') k = map_of (merged_spec st) k \<and> files_processed st' = files_processed st
   \<and> component_conflicts st' = component_conflicts st"
proof (induction items arbitrary: st)
  case Nil
  then show ?case by simp
next
  case (Cons a items)
  obtain p it where a: "a = (p, it)" by (cases a)
  show ?case
  proof (cases it)
    case (JObj d)
    from Cons.prems(1) obtain st1 st2 paths present where
      s0: "(if \<not> present
                 then ebind (py_setitem paths p (JObj [])) (\<lambda>paths'.
                        Inr ((merged_set ''paths'' paths' st)\<lparr>paths_merged := paths_merged st + 1\<rparr>))
                 else Inr st) = Inr st1"
      and s2: "merge_methods p d st1 = Inr st2" and s3: "merge_path_items items st2 = Inr st'"
      unfolding a JObj merge_path_items.simps json.case
      by (blast dest!: ebind_Inr)
    from s0 Cons.prems(2) have "map_of (merged_spec st1) k = map_of (merged_spec st) k \<and> files_processed st1 = files_processed st
       \<and> component_conflicts st1 = component_conflicts st"
      by (auto dest!: ebind_Inr split: if_splits simp: merged_set_def update_conv')
    with merge_methods_frame[OF s2 Cons.prems(2)] Cons.IH[OF s3 Cons.prems(2)] show ?thesis by simp
  qed (use Cons a in auto)
qed

lemma merge_paths_frame:
  "merge_paths spec st = Inr st' \<Longrightarrow> k \<noteq> ''paths'' \<Longrightarrow>
   map_of (merged_spec st') k = map_of (merged_spec st) k \<and> files_processed st' = files_processed st
   \<and> component_conflicts st' = component_conflicts st"
  by (auto simp: merge_paths_def split: option.splits dest!: ebind_Inr dest: merge_path_items_frame)


lemma merge_root_property_first:
  assumes "map_of (merged_spec st) prop = None"
    "case map_of spec prop of None \<Rightarrow> True | Some v \<Rightarrow> py_copy v = Inr v"
  shows "merge_root_property prop spec st =
     Inr (case map_of spec prop of None \<Rightarrow> st | Some v \<Rightarrow> merged_set prop v st)"
  using assms by (simp add: merge_root_property_def ebind_def split: option.splits)

definition first_prop :: "dict \<Rightarrow> string \<Rightarrow> merger \<Rightarrow> merger" where
  "first_prop spec prop st = (case map_of spec prop of None \<Rightarrow> st | Some v \<Rightarrow> merged_set prop v st)"

lemma first_prop_frame:
  "k \<noteq> prop \<Longrightarrow> map_of (merged_spec (first_prop spec prop st)) k = map_of (merged_spec st) k"
  by (simp add: first_prop_def merged_set_frame split: option.splits)

lemma first_prop_stats [simp]:
  "files_processed (first_prop spec prop st) = files_processed st"
  "component_conflicts (first_prop spec prop st) = component_conflicts st"
  by (simp_all add: first_prop_def merged_set_def split: option.splits)

lemma merge_root_properties_first:
  assumes none: "\<forall>prop\<in>set [''servers'', ''security'', ''tags'', ''externalDocs'']. map_of (merged_spec st) prop = None"
    and ok: "\<forall>prop\<in>set [''servers'', ''security'', ''tags'', ''externalDocs''].
          (case map_of spec prop of None \<Rightarrow> True | Some v \<Rightarrow> py_copy v = Inr v)"
  shows "\<exists>st'. merge_root_properties spec st = Inr st'
     \<and> (\<forall>k. k \<notin> set [''servers'', ''security'', ''tags'', ''externalDocs'']
            \<longrightarrow> map_of (merged_spec st') k = map_of (merged_spec st) k)
     \<and> files_processed st' = files_processed st \<and> component_conflicts st' = component_conflicts st"
proof -
  let ?s1 = "first_prop spec ''servers'' st"
  let ?s2 = "first_prop spec ''security'' ?s1"
  let ?s3 = "first_prop spec ''tags'' ?s2"
  let ?s4 = "first_prop spec ''externalDocs'' ?s3"
  have a: "merge_root_property ''servers'' spec st = Inr ?s1"
    unfolding first_prop_def using none ok by (intro merge_root_property_first) simp_all
  have b: "merge_root_property ''security'' spec ?s1 = Inr ?s2"
    unfolding first_prop_def[of spec "''security''"] using none ok
    by (intro merge_root_property_first) (simp_all add: first_prop_frame)
  have c: "merge_root_property ''tags'' spec ?s2 = Inr ?s3"
    unfolding first_prop_def[of spec "''tags''"] using none ok
    by (intro merge_root_property_first) (simp_all add: first_prop_frame)
  have d: "merge_root_property ''externalDocs'' spec ?s3 = Inr ?s4"
    unfolding first_prop_def[of spec "''externalDocs''"] using none ok
    by (intro merge_root_property_first) (simp_all add: first_prop_frame)
  have "merge_root_properties spec st = Inr ?s4"
    by (simp add: merge_root_properties_def ebind_def a b c d)
  moreover have "\<forall>k. k \<notin> set [''servers'', ''security'', ''tags'', ''externalDocs'']
            \<longrightarrow> map_of (merged_spec ?s4) k = map_of (merged_spec st) k"
    by (simp add: first_prop_frame)
  ultimately show ?thesis by simp
qed

definition components_ok :: "dict \<Rightarrow> bool" where
  "components_ok cs = list_all (\<lambda>(comp_type, v). case v of JObj d \<Rightarrow> wf_dict d | _ \<Rightarrow> False) cs"

lemma merge_items_fresh:
  assumes "map_of target t = Some (JObj tc)" "distinct (map fst d)" "\<forall>n\<in>fst ` set d. map_of tc n = None"
  shows "\<exists>target' tc'. merge_items s t d (target, c) = (target', Inr c)
     \<and> map_of target' t = Some (JObj tc') \<and> (\<forall>k. k \<noteq> t \<longrightarrow> map_of target' k = map_of target k)"
  using assms
proof (induction d arbitrary: target tc)
  case Nil
  then show ?case by simp
next
  case (Cons a d)
  obtain n v where a: "a = (n, v)" by (cases a)
  let ?tc1 = "AList.update n v tc"
  let ?t1 = "AList.update t (JObj ?tc1) target"
  from Cons.prems have step: "merge_items s t (a # d) (target, c) = merge_items s t d (?t1, c)"
    by (simp add: a)
  have p1: "map_of ?t1 t = Some (JObj ?tc1)" by (simp add: update_conv')
  from Cons.prems(2) have p2: "distinct (map fst d)" and nn: "n \<notin> fst ` set d" by (auto simp: a)
  have p3: "\<forall>n'\<in>fst ` set d. map_of ?tc1 n' = None"
    using Cons.prems(3) nn by (auto simp: update_conv' a)
  from Cons.IH[OF p1 p2 p3] obtain target' tc' where
    r: "merge_items s t d (?t1, c) = (target', Inr c)" "map_of target' t = Some (JObj tc')"
       "\<forall>k. k \<noteq> t \<longrightarrow> map_of target' k = map_of ?t1 k"
    by blast
  from r(3) have "\<forall>k. k \<noteq> t \<longrightarrow> map_of target' k = map_of target k" by (simp add: update_conv')
  with step r(1,2) show ?case by auto
qed

lemma merge_types_fresh:
  assumes "components_ok cs" "distinct ts" "\<forall>t\<in>set ts. map_of target t = None"
  shows "\<exists>target'. merge_types s ts cs (target, c) = (target', Inr c)
     \<and> (\<forall>k. k \<notin> set ts \<longrightarrow> map_of target' k = map_of target k)"
  using assms
proof (induction ts arbitrary: target)
  case Nil
  then show ?case by simp
next
  case (Cons t ts)
  from Cons.prems have dts: "distinct ts" and tn: "t \<notin> set ts" by auto
  show ?case
  proof (cases "map_of cs t")
    case None
    from Cons.IH[OF Cons.prems(1) dts, of target] Cons.prems(3) obtain target' where
      "merge_types s ts cs (target, c) = (target', Inr c)" "\<forall>k. k \<notin> set ts \<longrightarrow> map_of target' k = map_of target k"
      by auto
    with None show ?thesis by auto
  next
    case (Some v)
    then have "(t, v) \<in> set cs" by (rule map_of_SomeD)
    with Cons.prems(1) obtain d where v: "v = JObj d" and wd: "wf_dict d"
      by (cases v) (auto simp: components_ok_def list_all_iff)
    let ?t1 = "AList.update t (JObj []) target"
    have p1: "map_of ?t1 t = Some (JObj [])" by (simp add: update_conv')
    from merge_items_fresh[OF p1, of d s c] wd obtain target2 tc' where
      r: "merge_items s t d (?t1, c) = (target2, Inr c)" "map_of target2 t = Some (JObj tc')"
         "\<forall>k. k \<noteq> t \<longrightarrow> map_of target2 k = map_of ?t1 k"
      by (auto simp: wf_dict_def)
    have "\<forall>t'\<in>set ts. map_of target2 t' = None"
      using r(3) Cons.prems(3) tn by (auto simp: update_conv')
    from Cons.IH[OF Cons.prems(1) dts this] obtain target' where
      q: "merge_types s ts cs (target2, c) = (target', Inr c)" "\<forall>k. k \<notin> set ts \<longrightarrow> map_of target' k = map_of target2 k"
      by blast
    have "merge_types s (t # ts) cs (target, c) = (target', Inr c)"
      using Some v Cons.prems(3) r(1) q(1) by simp
    moreover have "\<forall>k. k \<notin> set (t # ts) \<longrightarrow> map_of target' k = map_of target k"
      using q(2) r(3) by (simp add: update_conv')
    ultimately show ?thesis by blast
  qed
qed

lemma track_conflicts_zero: "track_conflicts (map (\<lambda>t. (t, 0)) ts) cc = cc"
  by (induction ts) simp_all

lemma merger_merge_components_fresh:
  assumes "map_of (merged_spec st) ''components'' = Some (JObj [])"
    "case map_of spec ''components'' of None \<Rightarrow> True | Some v \<Rightarrow> (\<exists>cs. v = JObj cs \<and> components_ok cs)"
  shows "\<exists>st' c. merger_merge_components spec s st = Inr st'
     \<and> map_of (merged_spec st') ''components'' = Some (JObj c)
     \<and> (\<forall>k. k \<noteq> ''components'' \<longrightarrow> map_of (merged_spec st') k = map_of (merged_spec st) k)
     \<and> files_processed st' = files_processed st \<and> component_conflicts st' = component_conflicts st"
proof (cases "map_of spec ''components''")
  case None
  with assms(1) show ?thesis by (simp add: merger_merge_components_def)
next
  case (Some v)
  with assms(2) obtain cs where v: "v = JObj cs" and ok: "components_ok cs" by auto
  have "distinct COMPONENT_TYPES" by (simp add: COMPONENT_TYPES_def)
  from merge_types_fresh[OF ok this, of "[]" s "map (\<lambda>comp_type. (comp_type, 0)) COMPONENT_TYPES"]
  obtain target' where
    m: "merge_components [] cs s = (target', Inr (map (\<lambda>comp_type. (comp_type, 0)) COMPONENT_TYPES))"
    by (auto simp: merge_components_def)
  have "merger_merge_components spec s st = Inr ((merged_set ''components'' (JObj target') st)
      \<lparr>component_conflicts := component_conflicts st\<rparr>)"
    using Some v assms(1) m
    by (simp add: merger_merge_components_def ebind_def merged_get_def py_items_def
          merge_components_of_def track_conflicts_zero)
  then show ?thesis by (simp add: merged_set_def update_conv')
qed

lemma clean_frame:
  assumes "map_of (merged_spec st) ''components'' = Some (JObj c)"
  shows "\<exists>st'. clean_merged_spec st = Inr st'
     \<and> (\<forall>k. k \<noteq> ''components'' \<longrightarrow> map_of (merged_spec st') k = map_of (merged_spec st) k)
     \<and> files_processed st' = files_processed st"
  using assms
  by (simp add: clean_merged_spec_def ebind_def py_items_def Let_def merged_set_def update_conv' delete_conv')

lemma set_update_subset: "x \<in> set (AList.update k v al) \<Longrightarrow> x = (k, v) \<or> x \<in> set al"
  by (induction al) (auto split: if_splits)

lemma add_endpoints_wf:
  "wf_paths acc \<Longrightarrow> wf_paths (add_endpoints es acc)"
proof (induction es arbitrary: acc)
  case Nil
  then show ?case by simp
next
  case (Cons e es)
  obtain p m op where e: "e = (p, m, op)" by (cases e)
  define paths1 where "paths1 = (if map_of acc p = None then AList.update p (JObj []) acc else acc)"
  define item where "item = (case map_of paths1 p of Some (JObj d) \<Rightarrow> d | _ \<Rightarrow> [])"
  have w1: "wf_paths paths1"
    using Cons.prems
    by (auto simp: paths1_def wf_paths_def wf_dict_def distinct_update list_all_iff dest!: set_update_subset)
  have wi: "wf_dict item"
  proof (cases "map_of paths1 p")
    case None
    then show ?thesis by (simp add: item_def wf_dict_def)
  next
    case (Some it)
    then have "(p, it) \<in> set paths1" by (rule map_of_SomeD)
    with w1 Some show ?thesis
      by (cases it) (auto simp: item_def wf_dict_def wf_paths_def list_all_iff)
  qed
  have "wf_paths (AList.update p (JObj (AList.update m op item)) paths1)"
    using w1 wi
    by (auto simp: wf_paths_def wf_dict_def distinct_update list_all_iff dest!: set_update_subset)
  then have "wf_paths (add_endpoints es (AList.update p (JObj (AList.update m op item)) paths1))"
    by (rule Cons.IH)
  then show ?case by (simp add: e paths1_def item_def Let_def)
qed


lemma components_ok_filter: "components_ok cs \<Longrightarrow> components_ok (filter P cs)"
  by (simp add: components_ok_def list_all_iff)

lemma merge_single_mini:
  assumes mi: "map_of mini ''info'' = Some (JObj mi)"
    and first: "merge_info_first (JObj mi) = Inr (JObj wi)"
    and fmt: "output_format \<in> set [''json'', ''yaml'', ''yml'']"
    and ext: "map_of mini ''externalDocs'' = None"
    and srv: "case map_of mini ''servers'' of None \<Rightarrow> True | Some v \<Rightarrow> py_copy v = Inr v"
    and sec: "case map_of mini ''security'' of None \<Rightarrow> True | Some v \<Rightarrow> py_copy v = Inr v"
    and tgs: "case map_of mini ''tags'' of None \<Rightarrow> True | Some v \<Rightarrow> py_copy v = Inr v"
    and cmp: "case map_of mini ''components'' of None \<Rightarrow> True | Some v \<Rightarrow> (\<exists>cs. v = JObj cs \<and> components_ok cs)"
    and pth: "map_of mini ''paths'' = Some (JObj ps)" "wf_paths ps"
  shows "\<exists>written st. merge_all [Inr mini] conflict_strategy output_format = Inr (written, st)
     \<and> map_of written ''info'' = Some (JObj wi) \<and> files_processed st = 1"
proof -
  define st0 where "st0 = copy_version mini merger_init"
  have f0: "files_processed st0 = 0" "component_conflicts st0 = []"
    by (simp_all add: st0_def copy_version_def merger_init_def merged_set_def split: option.splits)
  have l0: "map_of (merged_spec st0) k = map_of (merged_spec merger_init) k" if "k \<noteq> ''openapi''" "k \<noteq> ''swagger''" for k
    using that by (simp add: st0_def copy_version_def merged_set_frame split: option.splits)
  define st1 where "st1 = merged_set ''info'' (JObj wi) st0"
  have m1: "merge_info mini st0 = Inr st1"
    using mi first f0 by (simp add: merge_info_def ebind_def st1_def)
  have f1: "files_processed st1 = 0" using f0 by (simp add: st1_def merged_set_def)
  have i1: "map_of (merged_spec st1) ''info'' = Some (JObj wi)"
    by (simp add: st1_def merged_set_def update_conv')
  have l1: "map_of (merged_spec st1) k = map_of (merged_spec merger_init) k"
    if "k \<noteq> ''openapi''" "k \<noteq> ''swagger''" "k \<noteq> ''info''" for k
    using that by (simp add: st1_def merged_set_frame l0)
  have none: "\<forall>prop\<in>set [''servers'', ''security'', ''tags'', ''externalDocs'']. map_of (merged_spec st1) prop = None"
    by (simp add: l1 merger_init_def)
  have ok: "\<forall>prop\<in>set [''servers'', ''security'', ''tags'', ''externalDocs''].
          (case map_of mini prop of None \<Rightarrow> True | Some v \<Rightarrow> py_copy v = Inr v)"
    using ext srv sec tgs by simp
  from merge_root_properties_first[OF none ok] obtain st2 where
    m2: "merge_root_properties mini st1 = Inr st2"
    and l2: "\<forall>k. k \<notin> set [''servers'', ''security'', ''tags'', ''externalDocs'']
            \<longrightarrow> map_of (merged_spec st2) k = map_of (merged_spec st1) k"
    and f2: "files_processed st2 = files_processed st1"
    by blast
  have c2: "map_of (merged_spec st2) ''components'' = Some (JObj [])"
    using l2 by (simp add: l1 merger_init_def)
  from merger_merge_components_fresh[OF c2 cmp, of conflict_strategy] obtain st3 c where
    m3: "merger_merge_components mini conflict_strategy st2 = Inr st3"
    and c3: "map_of (merged_spec st3) ''components'' = Some (JObj c)"
    and l3: "\<forall>k. k \<noteq> ''components'' \<longrightarrow> map_of (merged_spec st3) k = map_of (merged_spec st2) k"
    and f3: "files_processed st3 = files_processed st2"
    by blast
  have p3: "map_of (merged_spec st3) ''paths'' = Some (JObj [])"
    using l3 l2 by (simp add: l1 merger_init_def)
  have mo: "mappings_only []" by (simp add: mappings_only_def)
  from merge_paths_effect[OF p3 mo pth] obtain st4 where
    m4: "merge_paths mini st3 = Inr st4" by blast
  from merge_paths_frame[OF m4, of "''info''"] merge_paths_frame[OF m4, of "''components''"]
  have l4: "map_of (merged_spec st4) ''info'' = map_of (merged_spec st3) ''info''"
    "map_of (merged_spec st4) ''components'' = map_of (merged_spec st3) ''components''"
    "files_processed st4 = files_processed st3"
    by simp_all
  define st5 where "st5 = st4\<lparr>files_processed := files_processed st4 + 1\<rparr>"
  have mf: "merge_file conflict_strategy mini merger_init = Inr st5"
    using m1 m2 m3 m4 by (simp add: merge_file_def ebind_def st0_def st5_def)
  have i5: "map_of (merged_spec st5) ''info'' = Some (JObj wi)"
    using l4(1) l3 l2 i1 by (simp add: st5_def)
  have c5: "map_of (merged_spec st5) ''components'' = Some (JObj c)"
    using l4(2) c3 by (simp add: st5_def)
  have f5: "files_processed st5 = 1"
    using l4(3) f3 f2 f1 by (simp add: st5_def)
  from clean_frame[OF c5] obtain st6 where
    m6: "clean_merged_spec st5 = Inr st6"
    and l6: "\<forall>k. k \<noteq> ''components'' \<longrightarrow> map_of (merged_spec st6) k = map_of (merged_spec st5) k"
    and f6: "files_processed st6 = files_processed st5"
    by blast
  have sv: "save_spec (merged_spec st6) output_format = Inr (merged_spec st6)"
    using fmt by (auto simp: save_spec_def)
  have "merge_all [Inr mini] conflict_strategy output_format = Inr (merged_spec st6, st6)"
    using mf m6 sv by (simp add: merge_all_def ebind_def)
  moreover have "map_of (merged_spec st6) ''info'' = Some (JObj wi)" using l6 i5 by simp
  moreover have "files_processed st6 = 1" using f6 f5 by simp
  ultimately show ?thesis by blast
qed


text \<open>
  Claim C6, as amended. Let the source have an \<^verbatim>\<open>info\<close> mapping whose title is a string that
  contains no \<^verbatim>\<open>" - "\<close> and does not end with \<^verbatim>\<open>" -"\<close>. A mini-document that
  \<^verbatim>\<open>create_mini_spec\<close> produces for a group labelled \<open>name\<close> (a tag, for a split by tag) has the
  title \<open>t - name\<close> and the stamps \<^verbatim>\<open>x-split-part = name\<close> and \<^verbatim>\<open>x-split-timestamp\<close>; merging
  that mini-document alone succeeds (the component sections of the source being mappings and
  the output format one that \<^verbatim>\<open>save_spec\<close> writes) and the merged \<^verbatim>\<open>info\<close> has the title \<open>t\<close>
  again and neither stamp.
\<close>

theorem title_round_trip:
  assumes info: "map_of (source_spec sp) ''info'' = Some (JObj info)"
    and title: "map_of info ''title'' = Some (JStr t)"
    and nosep: "\<not> is_substring '' - '' t" and nodash: "\<not> suffix '' -'' t"
    and comps: "components_ok (common_components sp)"
    and fmt: "output_format \<in> set [''json'', ''yaml'', ''yml'']"
    and mini: "create_mini_spec sp endpoints name include_components = Inr mini"
  shows "\<exists>mi written st wi.
       map_of mini ''info'' = Some (JObj mi)
     \<and> map_of mi ''title'' = Some (JStr (t @ '' - '' @ name))
     \<and> map_of mi ''x-split-part'' = Some (JStr name)
     \<and> map_of mi ''x-split-timestamp'' = Some (st_mtime sp)
     \<and> merge_all [Inr mini] conflict_strategy output_format = Inr (written, st)
     \<and> map_of written ''info'' = Some (JObj wi)
     \<and> map_of wi ''title'' = Some (JStr t)
     \<and> map_of wi ''x-split-part'' = None
     \<and> map_of wi ''x-split-timestamp'' = None"
proof -
  define mi where "mi = AList.update ''x-split-timestamp'' (st_mtime sp)
       (AList.update ''x-split-part'' (JStr name)
         (AList.update ''title'' (JStr (t @ '' - '' @ name)) info))"
  define wi where "wi = AList.update ''title'' (JStr t)
       (AList.delete ''x-split-timestamp'' (AList.delete ''x-split-part'' mi))"
  from create_mini_spec_shape[OF mini] obtain info0 info' where
    sh: "(case map_of (source_spec sp) ''info'' of
              Some i \<Rightarrow> py_copy i
            | None \<Rightarrow> Inr (JObj [(''title'', JStr ''API''), (''version'', JStr ''1.0.0'')])) = Inr info0"
      "stamp_info sp name info0 = Inr info'"
      "map_of mini ''info'' = Some info'"
      "map_of mini ''externalDocs'' = None"
      "map_of mini ''paths'' = Some (JObj (add_endpoints endpoints []))"
      "map_of mini ''components'' = mini_components sp include_components"
      "case map_of mini ''servers'' of None \<Rightarrow> True | Some v \<Rightarrow> py_copy v = Inr v"
      "case map_of mini ''security'' of None \<Rightarrow> True | Some v \<Rightarrow> py_copy v = Inr v"
      "case map_of mini ''tags'' of None \<Rightarrow> True | Some v \<Rightarrow> py_copy v = Inr v"
    by blast
  from sh(1) info have "info0 = JObj info" by (simp add: py_copy_def)
  with sh(2) stamp_info_obj[OF title, of sp name] have "info' = JObj mi" by (simp add: mi_def)
  with sh(3) have g1: "map_of mini ''info'' = Some (JObj mi)" by simp
  have g2: "map_of mi ''title'' = Some (JStr (t @ '' - '' @ name))"
    and g3: "map_of mi ''x-split-part'' = Some (JStr name)"
    and g4: "map_of mi ''x-split-timestamp'' = Some (st_mtime sp)"
    by (simp_all add: mi_def update_conv')
  have first: "merge_info_first (JObj mi) = Inr (JObj wi)"
    unfolding wi_def using g2 _ _ nosep nodash by (rule merge_info_first_stamped) (simp_all add: g3 g4)
  have cmp: "case map_of mini ''components'' of None \<Rightarrow> True | Some v \<Rightarrow> (\<exists>cs. v = JObj cs \<and> components_ok cs)"
    using comps by (simp add: sh(6) mini_components_def components_ok_filter)
  have wfp: "wf_paths (add_endpoints endpoints [])"
    by (rule add_endpoints_wf) (simp add: wf_paths_def wf_dict_def)
  from merge_single_mini[OF g1 first fmt sh(4) sh(7) sh(8) sh(9) cmp sh(5) wfp, of conflict_strategy]
  obtain written st where
    m: "merge_all [Inr mini] conflict_strategy output_format = Inr (written, st)"
    and w: "map_of written ''info'' = Some (JObj wi)"
    by blast
  have g7: "map_of wi ''title'' = Some (JStr t)"
    and g8: "map_of wi ''x-split-part'' = None"
    and g9: "map_of wi ''x-split-timestamp'' = None"
    by (simp_all add: wi_def update_conv' delete_conv')
  show ?thesis
    by (intro exI[of _ mi] exI[of _ written] exI[of _ st] exI[of _ wi] conjI) (fact g1 g2 g3 g4 m w g7 g8 g9)+
qed

definition pet_store :: dict where
  "pet_store = [(''openapi'', JStr ''3.0.3''),
     (''info'', JObj [(''title'', JStr ''Pet Store''), (''version'', JStr ''1.0.0'')]),
     (''tags'', JArr [JObj [(''name'', JStr ''pets'')], JObj [(''name'', JStr ''owners'')]]),
     (''paths'', JObj [(''/pets'', JObj [(''get'', JObj [(''tags'', JArr [JStr ''pets''])])])]),
     (''components'', JObj [(''schemas'', JObj [(''Pet'', JObj [(''type'', JStr ''object'')])])])]"

definition pet_splitter :: "dict \<Rightarrow> splitter" where
  "pet_splitter doc = \<lparr> source_spec = doc,
       common_components = (''schemas'', JObj [(''Pet'', JObj [(''type'', JStr ''object'')])])
                             # map (\<lambda>comp_type. (comp_type, JObj [])) (tl COMPONENT_TYPES),
       st_mtime = JFloat 1700000000, str_of = (\<lambda>v. []) \<rparr>"

lemma pet_splitter_init: "splitter_init pet_store (JFloat 1700000000) (\<lambda>v. []) = Inr (pet_splitter pet_store)"
  by (simp add: splitter_init_def extract_components_def pet_store_def pet_splitter_def COMPONENT_TYPES_def
        ebind_def str_in_def py_getitem_def py_copy_def)

definition pets_endpoints :: "operation list" where
  "pets_endpoints = [(''/pets'', ''get'', JObj [(''tags'', JArr [JStr ''pets''])])]"

definition pets_mini :: dict where
  "pets_mini = [(''openapi'', JStr ''3.0.3''),
     (''info'', JObj [(''title'', JStr ''Pet Store - pets''), (''version'', JStr ''1.0.0''),
                      (''x-split-part'', JStr ''pets''), (''x-split-timestamp'', JFloat 1700000000)]),
     (''paths'', JObj [(''/pets'', JObj [(''get'', JObj [(''tags'', JArr [JStr ''pets''])])])]),
     (''components'', JObj [(''schemas'', JObj [(''Pet'', JObj [(''type'', JStr ''object'')])])]),
     (''tags'', JArr [JObj [(''name'', JStr ''pets'')]])]"

lemma pets_mini: "create_mini_spec (pet_splitter pet_store) pets_endpoints ''pets'' True = Inr pets_mini"
  by (simp add: create_mini_spec_def pet_splitter_def pet_store_def pets_endpoints_def pets_mini_def COMPONENT_TYPES_def
        ebind_def py_copy_def get_default_def py_truthy_def copy_prop_def relevant_tags_def
        str_in_def py_getitem_def py_iter_def py_hashable_def py_get_def hashed_def py_member_def
        py_eq_def num_val_def stamp_info_def py_setitem_def format_value_def)


theorem title_round_trip_witness:
  "map_of (source_spec (pet_splitter pet_store)) ''info''
      = Some (JObj [(''title'', JStr ''Pet Store''), (''version'', JStr ''1.0.0'')])
   \<and> \<not> is_substring '' - '' ''Pet Store'' \<and> \<not> suffix '' -'' ''Pet Store''
   \<and> components_ok (common_components (pet_splitter pet_store))
   \<and> create_mini_spec (pet_splitter pet_store) pets_endpoints ''pets'' True = Inr pets_mini
   \<and> (\<exists>written st wi. merge_all [Inr pets_mini] ''keep_first'' ''json'' = Inr (written, st)
         \<and> map_of written ''info'' = Some (JObj wi) \<and> map_of wi ''title'' = Some (JStr ''Pet Store''))"
proof -
  have h1: "map_of (source_spec (pet_splitter pet_store)) ''info''
      = Some (JObj [(''title'', JStr ''Pet Store''), (''version'', JStr ''1.0.0'')])"
    by (simp add: pet_splitter_def pet_store_def)
  have h2: "map_of [(''title'', JStr ''Pet Store''), (''version'', JStr ''1.0.0'')] ''title'' = Some (JStr ''Pet Store'')"
    by simp
  have h3: "\<not> is_substring '' - '' ''Pet Store''" by simp
  have h4: "\<not> suffix '' -'' ''Pet Store''" by (simp add: suffix_def)
  have h5: "components_ok (common_components (pet_splitter pet_store))"
    by (simp add: components_ok_def pet_splitter_def wf_dict_def COMPONENT_TYPES_def)
  have h6: "''json'' \<in> set [''json'', ''yaml'', ''yml'']" by simp
  from title_round_trip[OF h1 h2 h3 h4 h5 h6 pets_mini, of "''keep_first''"]
  have "\<exists>written st wi. merge_all [Inr pets_mini] ''keep_first'' ''json'' = Inr (written, st)
         \<and> map_of written ''info'' = Some (JObj wi) \<and> map_of wi ''title'' = Some (JStr ''Pet Store'')"
    by blast
  with h1 h3 h4 h5 pets_mini show ?thesis by blast
qed

definition dash_store :: dict where
  "dash_store = [(''openapi'', JStr ''3.0.3''),
     (''info'', JObj [(''title'', JStr ''Pets -''), (''version'', JStr ''1.0.0'')]),
     (''paths'', JObj [(''/pets'', JObj [(''get'', JObj [(''tags'', JArr [JStr ''pets''])])])]),
     (''components'', JObj [(''schemas'', JObj [(''Pet'', JObj [(''type'', JStr ''object'')])])])]"

lemma dash_splitter_init: "splitter_init dash_store (JFloat 1700000000) (\<lambda>v. []) = Inr (pet_splitter dash_store)"
  by (simp add: splitter_init_def extract_components_def dash_store_def pet_splitter_def COMPONENT_TYPES_def
        ebind_def str_in_def py_getitem_def py_copy_def)

definition dash_mini :: dict where
  "dash_mini = [(''openapi'', JStr ''3.0.3''),
     (''info'', JObj [(''title'', JStr ''Pets - - pets''), (''version'', JStr ''1.0.0''),
                      (''x-split-part'', JStr ''pets''), (''x-split-timestamp'', JFloat 1700000000)]),
     (''paths'', JObj [(''/pets'', JObj [(''get'', JObj [(''tags'', JArr [JStr ''pets''])])])]),
     (''components'', JObj [(''schemas'', JObj [(''Pet'', JObj [(''type'', JStr ''object'')])])])]"

definition split_then_merge :: "splitter \<Rightarrow> operation list \<Rightarrow> string \<Rightarrow> pyerr + (dict \<times> merger)" where
  "split_then_merge sp endpoints name =
     ebind (create_mini_spec sp endpoints name True) (\<lambda>mini. merge_all [Inr mini] ''keep_first'' ''json'')"

definition merged_title :: "pyerr + (dict \<times> merger) \<Rightarrow> json option" where
  "merged_title r = (case r of
      Inr (written, st) \<Rightarrow> (case map_of written ''info'' of Some (JObj i) \<Rightarrow> map_of i ''title'' | _ \<Rightarrow> None)
    | Inl e \<Rightarrow> None)"

lemma dash_mini: "create_mini_spec (pet_splitter dash_store) pets_endpoints ''pets'' True = Inr dash_mini"
  by (simp add: create_mini_spec_def pet_splitter_def dash_store_def pets_endpoints_def dash_mini_def COMPONENT_TYPES_def
        ebind_def py_copy_def get_default_def py_truthy_def copy_prop_def relevant_tags_def
        stamp_info_def py_setitem_def format_value_def py_get_def)

text \<open>
  The claim as stated asks only that the title contain no \<^verbatim>\<open>" - "\<close>. The title \<^verbatim>\<open>"Pets -"\<close>
  contains none, its mini-document for the group \<^verbatim>\<open>pets\<close> is titled \<^verbatim>\<open>"Pets - - pets"\<close>, and
  the merge cuts that at the first \<^verbatim>\<open>" - "\<close>, which starts inside the old title.
\<close>

theorem title_round_trip_counterexample:
  "\<not> is_substring '' - '' ''Pets -''
   \<and> merged_title (split_then_merge (pet_splitter dash_store) pets_endpoints ''pets'') = Some (JStr ''Pets'')"
proof -
  have first: "merge_info_first (JObj [(''title'', JStr ''Pets - - pets''), (''version'', JStr ''1.0.0''),
                      (''x-split-part'', JStr ''pets''), (''x-split-timestamp'', JFloat 1700000000)])
      = Inr (JObj [(''title'', JStr ''Pets''), (''version'', JStr ''1.0.0'')])"
    by (simp add: merge_info_first_def ebind_def py_copy_def del_if_present_def str_in_def py_delitem_def
          py_get_def get_default_def title_before_suffix_def py_setitem_def)
  have "\<exists>written st. merge_all [Inr dash_mini] ''keep_first'' ''json'' = Inr (written, st)
     \<and> map_of written ''info'' = Some (JObj [(''title'', JStr ''Pets''), (''version'', JStr ''1.0.0'')])
     \<and> files_processed st = 1"
    by (rule merge_single_mini[OF _ first, where ps = "[(''/pets'', JObj [(''get'', JObj [(''tags'', JArr [JStr ''pets''])])])]"])
       (simp_all add: dash_mini_def components_ok_def wf_dict_def wf_paths_def py_copy_def)
  then have "merged_title (split_then_merge (pet_splitter dash_store) pets_endpoints ''pets'') = Some (JStr ''Pets'')"
    by (auto simp: split_then_merge_def dash_mini ebind_def merged_title_def)
  then show ?thesis by simp
qed

section \<open>Round trip: split, then merge\<close>

definition collide_doc :: dict where
  "collide_doc = [(''openapi'', JStr ''3.0.3''),
     (''info'', JObj [(''title'', JStr ''Shop''), (''version'', JStr ''1.0.0'')]),
     (''paths'', JObj [(''/a'', JObj [(''get'', JObj []), (''post'', JObj [])]),
                       (''/a_part1'', JObj [(''get'', JObj [])])])]"

definition no_format :: "json \<Rightarrow> string" where
  "no_format v = []"

text \<open>
  Claim C1. Splitting by size or by path prefix and merging the files written should give back
  exactly the (path, method) pairs of the source. The path-prefix split loses an operation
  when a group is cut into chunks: the chunks of the group \<^verbatim>\<open>a\<close> are stored under the labels
  \<^verbatim>\<open>a_part1\<close>, \<^verbatim>\<open>a_part2\<close>, and the group of the path \<^verbatim>\<open>/a_part1\<close> is stored under
  \<^verbatim>\<open>a_part1\<close> as well, replacing the first chunk. With at most one operation per file the
  operation \<^verbatim>\<open>GET /a\<close> is in no file and is missing after the merge.
\<close>

theorem round_trip_path_prefix_loses_operation:
  "operation_keys collide_doc = Inr [(''/a'', ''get''), (''/a'', ''post''), (''/a_part1'', ''get'')]
   \<and> round_trip_path_prefix collide_doc (JFloat 1700000000) no_format 1 ''keep_first''
       = Inr [(''/a_part1'', ''get''), (''/a'', ''post'')]"
  by code_simp

section \<open>Size-based split: chunks and file names\<close>











definition add_endpoint :: "operation \<Rightarrow> dict \<Rightarrow> dict" where
  "add_endpoint e paths =
     (let paths1 = (if map_of paths (fst e) = None then AList.update (fst e) (JObj []) paths else paths);
          item = (case map_of paths1 (fst e) of Some (JObj d) \<Rightarrow> d | _ \<Rightarrow> [])
      in AList.update (fst e) (JObj (AList.update (fst (snd e)) (snd (snd e)) item)) paths1)"

lemma add_endpoints_Cons: "add_endpoints (e # es) paths = add_endpoints es (add_endpoint e paths)"
  by (cases e) (simp add: add_endpoint_def Let_def)

lemma add_endpoint_objs: "objs acc \<Longrightarrow> objs (add_endpoint e acc)"
  by (auto simp: objs_def add_endpoint_def Let_def update_conv' is_obj_def split: if_splits)


lemma add_endpoints_objs: "objs acc \<Longrightarrow> objs (add_endpoints es acc)"
  by (induction es arbitrary: acc) (simp_all add: add_endpoints_Cons add_endpoint_objs del: add_endpoints.simps(2))























definition paths75 :: dict where
  "paths75 = map (\<lambda>i. (''/r'' @ str_nat i,
                        JObj (map (\<lambda>m. (m, JObj [(''summary'', JStr m)]))
                                [''get'', ''post'', ''put'', ''delete'', ''patch''])))
                 [0..<15]"

definition doc75 :: dict where
  "doc75 = [(''openapi'', JStr ''3.0.3''),
            (''info'', JObj [(''title'', JStr ''Seventy-five''), (''version'', JStr ''1.0.0'')]),
            (''paths'', JObj paths75)]"

definition splitter75 :: splitter where
  "splitter75 = \<lparr> source_spec = doc75,
       common_components = map (\<lambda>comp_type. (comp_type, JObj [])) COMPONENT_TYPES,
       st_mtime = JFloat 1700000000, str_of = no_format \<rparr>"

lemma splitter75_init: "splitter_init doc75 (JFloat 1700000000) no_format = Inr splitter75"
  by (simp add: splitter_init_def extract_components_def doc75_def splitter75_def ebind_def)


end
